theory Spec2Isabelle
  imports Main "HOL-Library.Sublist"
begin

section \<open>Data model (types/puzzle.ts, types/game.ts)\<close>

text \<open>
  Grid coordinates and lengths are JavaScript numbers that only ever hold integers;
  they are modelled as \<open>int\<close>. Optional properties are \<open>option\<close> values. Several
  interfaces of the source share the property names \<open>id\<close>, \<open>row\<close>, \<open>col\<close>,
  \<open>length\<close>, \<open>type\<close>; the record fields carry a prefix naming the interface.
\<close>

datatype Orientation = horizontal | vertical
datatype VehicleType = car | truck
datatype ObstacleType = tree | sidewalk | barrier
datatype Difficulty = tutorial | easy | medium | hard
datatype Direction = up | down | left | right
datatype VehicleColor = blue | green | yellow | purple

record Position =
  row :: int
  col :: int

record GridSize =
  rows :: int
  cols :: int

record Exit = Position +
  direction :: Direction

record Vehicle =
  v_id :: string
  v_row :: int
  v_col :: int
  v_length :: int
  v_orientation :: Orientation
  v_type :: "VehicleType option"
  v_color :: "VehicleColor option"

record Obstacle =
  o_id :: string
  o_row :: int
  o_col :: int
  o_type :: ObstacleType

record PuzzleMove =
  vehicleId :: string
  m_row :: int
  m_col :: int

record ValidationResult =
  isValid :: bool
  par :: "nat option"
  error :: "string option"

record Puzzle =
  p_id :: string
  p_name :: string
  p_difficulty :: Difficulty
  gridSize :: GridSize
  exit :: Exit
  playerCar :: Vehicle
  vehicles :: "Vehicle list"
  obstacles :: "Obstacle list"
  validation :: "PuzzleMove list option"
  validationResult :: "ValidationResult option"

record GameState =
  puzzle :: Puzzle
  vehiclePositions :: "string \<rightharpoonup> Position"
  moveCount :: nat
  isComplete :: bool

text \<open>
  The engine object: its state, its move history, and the effect of \<open>notify()\<close>.
  The listeners are callbacks of the caller; what the engine does to them is to call each
  one with the current state, so the model keeps the log of the states handed out, one
  entry per call of \<open>notify()\<close>, oldest first.
\<close>

record GameEngine =
  state :: GameState
  moveHistory :: "PuzzleMove list"
  notified :: "GameState list"

text \<open>
  What a JavaScript run can raise here: reading a property of \<open>undefined\<close> (a
  \<open>TypeError\<close>), and the \<open>Error\<close> thrown by hydration with its message.
\<close>

datatype exn = TypeError | Error string

section \<open>The engine (core/GameEngine.ts)\<close>

definition initState :: "Puzzle \<Rightarrow> GameState" where
  "initState p =
     \<lparr>puzzle = p,
      vehiclePositions =
        fold (\<lambda>v m. m(v_id v \<mapsto> \<lparr>row = v_row v, col = v_col v\<rparr>)) (vehicles p)
          (Map.empty(v_id (playerCar p) \<mapsto> \<lparr>row = v_row (playerCar p), col = v_col (playerCar p)\<rparr>)),
      moveCount = 0,
      isComplete = False\<rparr>"

definition newGameEngine :: "Puzzle \<Rightarrow> GameEngine" where
  "newGameEngine p = \<lparr>state = initState p, moveHistory = [], notified = []\<rparr>"

definition notify :: "GameEngine \<Rightarrow> GameEngine" where
  "notify e = e\<lparr>notified := notified e @ [state e]\<rparr>"

definition getVehicle :: "GameEngine \<Rightarrow> string \<Rightarrow> Vehicle option" where
  "getVehicle e ident =
     (if ident = v_id (playerCar (puzzle (state e))) then Some (playerCar (puzzle (state e)))
      else find (\<lambda>v. v_id v = ident) (vehicles (puzzle (state e))))"

text \<open>
  The loop \<open>for (let i = 0; i < vehicle.length; i++)\<close> with its body
  \<open>r = orientation === 'vertical' ? pos.row + i : pos.row\<close>,
  \<open>c = orientation === 'horizontal' ? pos.col + i : pos.col\<close>
  occurs three times in the engine; \<open>cellsFrom\<close> is the list of the cells \<open>(r, c)\<close>
  it visits, in order. A length below one visits nothing.
\<close>

definition cellsFrom :: "Orientation \<Rightarrow> int \<Rightarrow> Position \<Rightarrow> (int \<times> int) list" where
  "cellsFrom ori len pos =
     map (\<lambda>i. (if ori = vertical then row pos + i else row pos,
                if ori = horizontal then col pos + i else col pos)) [0..len - 1]"

text \<open>
  The occupancy map has keys \<open>`${r},${c}`\<close>; for integers the key determines the cell,
  so the model's keys are the cells themselves. \<open>pos\<close> is the result of
  \<open>vehiclePositions.get(id)!\<close>: when it is \<open>undefined\<close>, the first round of the loop
  raises a TypeError, and a loop of no rounds raises nothing.
\<close>

definition addVehicleCells ::
  "Vehicle \<Rightarrow> Position option \<Rightarrow> ((int \<times> int) \<rightharpoonup> string) \<Rightarrow> exn + ((int \<times> int) \<rightharpoonup> string)" where
  "addVehicleCells vehicle pos occupied =
     (if v_length vehicle \<le> 0 then Inr occupied
      else case pos of
             None \<Rightarrow> Inl TypeError
           | Some p \<Rightarrow>
               Inr (fold (\<lambda>cell occ. occ(cell \<mapsto> v_id vehicle))
                      (cellsFrom (v_orientation vehicle) (v_length vehicle) p) occupied))"

fun addOtherVehicles ::
  "GameState \<Rightarrow> string option \<Rightarrow> Vehicle list \<Rightarrow> ((int \<times> int) \<rightharpoonup> string)
    \<Rightarrow> exn + ((int \<times> int) \<rightharpoonup> string)" where
  "addOtherVehicles s excludeId [] occupied = Inr occupied"
| "addOtherVehicles s excludeId (v # vs) occupied =
     (if Some (v_id v) = excludeId then addOtherVehicles s excludeId vs occupied
      else case addVehicleCells v (vehiclePositions s (v_id v)) occupied of
             Inl x \<Rightarrow> Inl x
           | Inr occ \<Rightarrow> addOtherVehicles s excludeId vs occ)"

definition getOccupiedCells ::
  "GameEngine \<Rightarrow> string option \<Rightarrow> exn + ((int \<times> int) \<rightharpoonup> string)" where
  "getOccupiedCells e excludeId =
     (let s = state e; pc = playerCar (puzzle s) in
      case (if excludeId \<noteq> Some (v_id pc)
            then addVehicleCells pc (vehiclePositions s (v_id pc)) Map.empty
            else Inr Map.empty) of
        Inl x \<Rightarrow> Inl x
      | Inr occ1 \<Rightarrow>
          (case addOtherVehicles s excludeId (vehicles (puzzle s)) occ1 of
             Inl x \<Rightarrow> Inl x
           | Inr occ2 \<Rightarrow>
               Inr (fold (\<lambda>obs occ. occ((o_row obs, o_col obs) \<mapsto> o_id obs))
                      (obstacles (puzzle s)) occ2)))"

definition canMove :: "GameEngine \<Rightarrow> string \<Rightarrow> Position \<Rightarrow> exn + bool" where
  "canMove e ident newPos =
     (case getVehicle e ident of
        None \<Rightarrow> Inr False
      | Some vehicle \<Rightarrow>
          (case vehiclePositions (state e) ident of
             None \<Rightarrow> Inl TypeError
           | Some currentPos \<Rightarrow>
               if v_orientation vehicle = horizontal \<and> row newPos \<noteq> row currentPos then Inr False
               else if v_orientation vehicle = vertical \<and> col newPos \<noteq> col currentPos then Inr False
               else
                 let gs = gridSize (puzzle (state e));
                     cells = cellsFrom (v_orientation vehicle) (v_length vehicle) newPos
                 in if \<exists>(r, c) \<in> set cells. r < 0 \<or> r \<ge> rows gs \<or> c < 0 \<or> c \<ge> cols gs
                    then Inr False
                    else (case getOccupiedCells e (Some ident) of
                            Inl x \<Rightarrow> Inl x
                          | Inr occupied \<Rightarrow>
                              Inr (\<not> (\<exists>cell \<in> set cells. occupied cell \<noteq> None)))))"

record SlideRange =
  range_min :: int
  range_max :: int

definition testPos :: "bool \<Rightarrow> Position \<Rightarrow> int \<Rightarrow> Position" where
  "testPos isHorizontal currentPos k =
     (if isHorizontal then \<lparr>row = row currentPos, col = k\<rparr>
      else \<lparr>row = k, col = col currentPos\<rparr>)"

function slideBackward :: "GameEngine \<Rightarrow> string \<Rightarrow> bool \<Rightarrow> Position \<Rightarrow> int \<Rightarrow> exn + int" where
  "slideBackward e ident isHorizontal currentPos mn =
     (if mn > 0 then
        (case canMove e ident (testPos isHorizontal currentPos (mn - 1)) of
           Inl x \<Rightarrow> Inl x
         | Inr ok \<Rightarrow>
             if ok then slideBackward e ident isHorizontal currentPos (mn - 1) else Inr mn)
      else Inr mn)"
  by pat_completeness auto
termination
  by (relation "measure (\<lambda>(e, ident, isHorizontal, currentPos, mn). nat mn)") auto

function slideForward ::
  "GameEngine \<Rightarrow> string \<Rightarrow> bool \<Rightarrow> Position \<Rightarrow> int \<Rightarrow> int \<Rightarrow> int \<Rightarrow> exn + int" where
  "slideForward e ident isHorizontal currentPos len limit mx =
     (if mx + len < limit then
        (case canMove e ident (testPos isHorizontal currentPos (mx + 1)) of
           Inl x \<Rightarrow> Inl x
         | Inr ok \<Rightarrow>
             if ok then slideForward e ident isHorizontal currentPos len limit (mx + 1)
             else Inr mx)
      else Inr mx)"
  by pat_completeness auto
termination
  by (relation "measure (\<lambda>(e, ident, isHorizontal, currentPos, len, limit, mx). nat (limit - len - mx))")
    auto

declare slideBackward.simps [simp del] slideForward.simps [simp del]

definition getSlideRange :: "GameEngine \<Rightarrow> string \<Rightarrow> exn + SlideRange" where
  "getSlideRange e ident =
     (case getVehicle e ident of
        None \<Rightarrow> Inl TypeError
      | Some vehicle \<Rightarrow>
          (case vehiclePositions (state e) ident of
             None \<Rightarrow> Inl TypeError
           | Some currentPos \<Rightarrow>
               let isHorizontal = (v_orientation vehicle = horizontal);
                   currentVal = (if isHorizontal then col currentPos else row currentPos)
               in (case slideBackward e ident isHorizontal currentPos currentVal of
                     Inl x \<Rightarrow> Inl x
                   | Inr mn \<Rightarrow>
                       (let limit = (if isHorizontal then cols (gridSize (puzzle (state e)))
                                     else rows (gridSize (puzzle (state e))))
                        in (case slideForward e ident isHorizontal currentPos
                                   (v_length vehicle) limit currentVal of
                              Inl x \<Rightarrow> Inl x
                            | Inr mx \<Rightarrow> Inr \<lparr>range_min = mn, range_max = mx\<rparr>)))))"

text \<open>
  \<open>checkWin\<close> reads the player's position only inside the four branches that return a
  comparison; the other combinations return false without touching it.
\<close>

definition checkWin :: "GameState \<Rightarrow> exn + bool" where
  "checkWin s =
     (let ex = exit (puzzle s); pc = playerCar (puzzle s);
          pos = vehiclePositions s (v_id pc)
      in if v_orientation pc = horizontal then
           (if direction ex = right then
              (case pos of None \<Rightarrow> Inl TypeError
               | Some p \<Rightarrow> Inr (row p = row ex \<and> col p + v_length pc - 1 = col ex))
            else if direction ex = left then
              (case pos of None \<Rightarrow> Inl TypeError
               | Some p \<Rightarrow> Inr (row p = row ex \<and> col p = col ex))
            else Inr False)
         else
           (if direction ex = down then
              (case pos of None \<Rightarrow> Inl TypeError
               | Some p \<Rightarrow> Inr (col p = col ex \<and> row p + v_length pc - 1 = row ex))
            else if direction ex = up then
              (case pos of None \<Rightarrow> Inl TypeError
               | Some p \<Rightarrow> Inr (col p = col ex \<and> row p = row ex))
            else Inr False))"

definition moveVehicle :: "GameEngine \<Rightarrow> string \<Rightarrow> Position \<Rightarrow> exn + (bool \<times> GameEngine)" where
  "moveVehicle e ident newPos =
     (case canMove e ident newPos of
        Inl x \<Rightarrow> Inl x
      | Inr ok \<Rightarrow>
          if \<not> ok then Inr (False, e)
          else
            (case vehiclePositions (state e) ident of
               None \<Rightarrow> Inl TypeError
             | Some currentPos \<Rightarrow>
                 if row currentPos = row newPos \<and> col currentPos = col newPos then Inr (False, e)
                 else
                   let s1 = (state e)\<lparr>vehiclePositions :=
                                        (vehiclePositions (state e))
                                          (ident \<mapsto> \<lparr>row = row newPos, col = col newPos\<rparr>),
                                      moveCount := moveCount (state e) + 1\<rparr>;
                       history = moveHistory e @
                                 [\<lparr>vehicleId = ident, m_row = row newPos, m_col = col newPos\<rparr>]
                   in (case checkWin s1 of
                         Inl x \<Rightarrow> Inl x
                       | Inr won \<Rightarrow>
                           (let s2 = (if won then s1\<lparr>isComplete := True\<rparr> else s1)
                            in Inr (True, notify (e\<lparr>state := s2, moveHistory := history\<rparr>))))))"

definition reset :: "GameEngine \<Rightarrow> GameEngine" where
  "reset e = notify (e\<lparr>state := initState (puzzle (state e)), moveHistory := []\<rparr>)"

subsection \<open>The replay validator\<close>

text \<open>
  Decimal rendering of an array index inside a template literal
  (\<open>`Invalid move at step ${i + 1}`\<close>, \<open>`vehicle-${i}`\<close>).
\<close>

definition digitChar :: "nat \<Rightarrow> char" where
  "digitChar d = char_of (of_char CHR ''0'' + d)"

fun showNat :: "nat \<Rightarrow> string" where
  "showNat n = (if n < 10 then [digitChar n] else showNat (n div 10) @ [digitChar (n mod 10)])"

declare showNat.simps [simp del]

text \<open>
  The \<open>for\<close> loop of \<open>validatePuzzle\<close> over \<open>puzzle.validation\<close>, \<open>i\<close> being the
  number of moves already replayed. It returns the step number of the move that was
  refused, if one was, together with the throwaway engine as the loop left it.
\<close>

fun replay :: "GameEngine \<Rightarrow> PuzzleMove list \<Rightarrow> nat \<Rightarrow> exn + (nat option \<times> GameEngine)" where
  "replay e [] i = Inr (None, e)"
| "replay e (m # ms) i =
     (case moveVehicle e (vehicleId m) \<lparr>row = m_row m, col = m_col m\<rparr> of
        Inl x \<Rightarrow> Inl x
      | Inr (success, e') \<Rightarrow>
          if \<not> success then Inr (Some (i + 1), e') else replay e' ms (i + 1))"

definition validatePuzzle :: "Puzzle \<Rightarrow> exn + ValidationResult" where
  "validatePuzzle p =
     (case validation p of
        None \<Rightarrow> Inr \<lparr>isValid = False, par = None, error = Some ''No validation provided''\<rparr>
      | Some ms \<Rightarrow>
          if length ms = 0
          then Inr \<lparr>isValid = False, par = None, error = Some ''No validation provided''\<rparr>
          else
            (case replay (newGameEngine p) ms 0 of
               Inl x \<Rightarrow> Inl x
             | Inr (Some k, e) \<Rightarrow>
                 Inr \<lparr>isValid = False, par = None,
                      error = Some (''Invalid move at step '' @ showNat k)\<rparr>
             | Inr (None, e) \<Rightarrow>
                 if \<not> isComplete (state e)
                 then Inr \<lparr>isValid = False, par = None,
                           error = Some ''Validation does not reach win state''\<rparr>
                 else Inr \<lparr>isValid = True, par = Some (length ms), error = None\<rparr>))"

section \<open>Hydration and rotation (data/puzzles/index.ts)\<close>

text \<open>
  The raw types of the JSON format. \<open>Body\<close> is the object type
  \<open>{row, col, length, orientation}\<close> of \<open>RawPuzzle.playerCar\<close> and of the parameter and
  result of \<open>rotateVehicle\<close>.
\<close>

record Body =
  b_row :: int
  b_col :: int
  b_length :: int
  b_orientation :: Orientation

record RawVehicle =
  rv_row :: int
  rv_col :: int
  rv_length :: int
  rv_orientation :: Orientation
  rv_type :: "VehicleType option"
  rv_color :: "VehicleColor option"

record RawObstacle =
  ro_row :: int
  ro_col :: int
  ro_type :: ObstacleType

record RawPuzzle =
  r_name :: string
  r_difficulty :: Difficulty
  r_gridSize :: GridSize
  r_exit :: Position
  r_playerCar :: Body
  r_vehicles :: "RawVehicle list"
  r_obstacles :: "RawObstacle list"
  r_validation :: "PuzzleMove list option"

definition VEHICLE_COLORS :: "VehicleColor list" where
  "VEHICLE_COLORS = [blue, green, yellow, purple]"

subsection \<open>Hydration\<close>

definition showInt :: "int \<Rightarrow> string" where
  "showInt i = (if i < 0 then CHR ''-'' # showNat (nat (- i)) else showNat (nat i))"

definition deduceExitDirection :: "Position \<Rightarrow> GridSize \<Rightarrow> exn + Direction" where
  "deduceExitDirection ex gs =
     (if col ex \<ge> cols gs - 1 then Inr right
      else if col ex \<le> 0 then Inr left
      else if row ex \<ge> rows gs - 1 then Inr down
      else if row ex \<le> 0 then Inr up
      else Inl (Error (''Exit at ('' @ showInt (row ex) @ '','' @ showInt (col ex)
                        @ '') is not on the grid periphery'')))"

text \<open>
  \<open>nextColor\<close> is a closure over \<open>colorIndex\<close> and \<open>usedColors\<close>; the model passes both
  in and returns them with the colour.
\<close>

definition nextColor :: "nat \<times> VehicleColor set \<Rightarrow> VehicleColor \<times> (nat \<times> VehicleColor set)" where
  "nextColor st =
     (let colorIndex = fst st; usedColors = snd st; n = length VEHICLE_COLORS in
      case find (\<lambda>i. VEHICLE_COLORS ! ((colorIndex + i) mod n) \<notin> usedColors) [0..<n] of
        Some i \<Rightarrow>
          (let candidate = VEHICLE_COLORS ! ((colorIndex + i) mod n)
           in (candidate, ((colorIndex + i + 1) mod n, insert candidate usedColors)))
      | None \<Rightarrow> (VEHICLE_COLORS ! (colorIndex mod n), (colorIndex + 1, usedColors)))"

text \<open>The callback of \<open>raw.vehicles.map\<close>, \<open>i\<close> being the index of the head of the list.\<close>

fun hydrateVehicles :: "nat \<Rightarrow> nat \<times> VehicleColor set \<Rightarrow> RawVehicle list \<Rightarrow> Vehicle list" where
  "hydrateVehicles i st [] = []"
| "hydrateVehicles i st (v # vs) =
     (case rv_color v of
        Some c \<Rightarrow>
          \<lparr>v_id = ''vehicle-'' @ showNat i, v_row = rv_row v, v_col = rv_col v,
           v_length = rv_length v, v_orientation = rv_orientation v, v_type = rv_type v,
           v_color = Some c\<rparr> # hydrateVehicles (i + 1) st vs
      | None \<Rightarrow>
          (let (c, st') = nextColor st in
           \<lparr>v_id = ''vehicle-'' @ showNat i, v_row = rv_row v, v_col = rv_col v,
            v_length = rv_length v, v_orientation = rv_orientation v, v_type = rv_type v,
            v_color = Some c\<rparr> # hydrateVehicles (i + 1) st' vs))"

definition hydratePuzzle :: "RawPuzzle \<Rightarrow> string \<Rightarrow> exn + Puzzle" where
  "hydratePuzzle raw ident =
     (case deduceExitDirection (r_exit raw) (r_gridSize raw) of
        Inl x \<Rightarrow> Inl x
      | Inr dir \<Rightarrow>
          Inr \<lparr>p_id = ident,
               p_name = r_name raw,
               p_difficulty = r_difficulty raw,
               gridSize = r_gridSize raw,
               exit = \<lparr>row = row (r_exit raw), col = col (r_exit raw), direction = dir\<rparr>,
               playerCar =
                 \<lparr>v_id = ''player'', v_row = b_row (r_playerCar raw), v_col = b_col (r_playerCar raw),
                  v_length = b_length (r_playerCar raw),
                  v_orientation = b_orientation (r_playerCar raw), v_type = None, v_color = None\<rparr>,
               vehicles =
                 hydrateVehicles 0 (0, set (List.map_filter rv_color (r_vehicles raw)))
                   (r_vehicles raw),
               obstacles =
                 map (\<lambda>(i, obs). \<lparr>o_id = ''obstacle-'' @ showNat i, o_row = ro_row obs,
                                   o_col = ro_col obs, o_type = ro_type obs\<rparr>)
                   (enumerate 0 (r_obstacles raw)),
               validation = r_validation raw,
               validationResult = None\<rparr>)"

subsection \<open>Rotation\<close>

text \<open>
  \<open>String.prototype.replace\<close> with a string pattern replaces the first occurrence;
  \<open>parseInt\<close> without a radix skips leading white space, reads a sign, takes a
  \<open>0x\<close> prefix as radix 16, and reads the longest run of digits, NaN (here \<open>None\<close>)
  when the run is empty. Strings are modelled as lists of 8-bit characters.
\<close>

fun replaceFirst :: "string \<Rightarrow> string \<Rightarrow> string \<Rightarrow> string" where
  "replaceFirst pat rep [] = (if pat = [] then rep else [])"
| "replaceFirst pat rep (c # cs) =
     (if prefix pat (c # cs) then rep @ drop (length pat) (c # cs)
      else c # replaceFirst pat rep cs)"

definition isStrWhiteSpace :: "char \<Rightarrow> bool" where
  "isStrWhiteSpace c = (of_char c \<in> {9, 10, 11, 12, 13, 32 :: nat})"

definition digitValue :: "char \<Rightarrow> nat option" where
  "digitValue c =
     (let n = of_char c :: nat in
      if 48 \<le> n \<and> n \<le> 57 then Some (n - 48)
      else if 97 \<le> n \<and> n \<le> 122 then Some (n - 87)
      else if 65 \<le> n \<and> n \<le> 90 then Some (n - 55)
      else None)"

definition isRadixDigit :: "nat \<Rightarrow> char \<Rightarrow> bool" where
  "isRadixDigit radix c = (case digitValue c of None \<Rightarrow> False | Some d \<Rightarrow> d < radix)"

definition digitsValue :: "nat \<Rightarrow> string \<Rightarrow> nat" where
  "digitsValue radix ds =
     foldl (\<lambda>acc c. acc * radix + (case digitValue c of None \<Rightarrow> 0 | Some d \<Rightarrow> d)) 0 ds"

definition parseInt :: "string \<Rightarrow> int option" where
  "parseInt s =
     (let s1 = dropWhile isStrWhiteSpace s;
          sign = (if prefix ''-'' s1 then - 1 else 1 :: int);
          s2 = (if prefix ''-'' s1 \<or> prefix ''+'' s1 then drop 1 s1 else s1);
          hex = (prefix ''0x'' s2 \<or> prefix ''0X'' s2);
          radix = (if hex then 16 else 10);
          s3 = (if hex then drop 2 s2 else s2);
          ds = takeWhile (isRadixDigit radix) s3
      in if ds = [] then None else Some (sign * int (digitsValue radix ds)))"

text \<open>\<open>raw.vehicles[idx]\<close>: \<open>undefined\<close> for NaN and for an index outside the array.\<close>

definition vehicleAt :: "RawVehicle list \<Rightarrow> int option \<Rightarrow> RawVehicle option" where
  "vehicleAt vs idx =
     (case idx of
        None \<Rightarrow> None
      | Some i \<Rightarrow> if 0 \<le> i \<and> i < int (length vs) then Some (vs ! nat i) else None)"

definition rotatePos :: "int \<Rightarrow> int \<Rightarrow> int \<Rightarrow> Position" where
  "rotatePos R r c = \<lparr>row = c, col = R - 1 - r\<rparr>"

definition rotateVehicle :: "int \<Rightarrow> Body \<Rightarrow> Body" where
  "rotateVehicle R v =
     (if b_orientation v = horizontal then
        (let p = rotatePos R (b_row v) (b_col v)
         in \<lparr>b_row = row p, b_col = col p, b_length = b_length v, b_orientation = vertical\<rparr>)
      else
        (let bottomRow = b_row v + b_length v - 1;
             p = rotatePos R bottomRow (b_col v)
         in \<lparr>b_row = row p, b_col = col p, b_length = b_length v, b_orientation = horizontal\<rparr>))"

text \<open>A raw vehicle passed where the object type \<open>Body\<close> is expected.\<close>

definition bodyOf :: "RawVehicle \<Rightarrow> Body" where
  "bodyOf v = \<lparr>b_row = rv_row v, b_col = rv_col v, b_length = rv_length v,
               b_orientation = rv_orientation v\<rparr>"

definition moveOrientation :: "RawPuzzle \<Rightarrow> string \<Rightarrow> Orientation" where
  "moveOrientation raw ident =
     (if ident = ''player'' then b_orientation (r_playerCar raw)
      else case vehicleAt (r_vehicles raw) (parseInt (replaceFirst ''vehicle-'' [] ident)) of
             None \<Rightarrow> horizontal
           | Some v \<Rightarrow> rv_orientation v)"

definition moveLength :: "RawPuzzle \<Rightarrow> string \<Rightarrow> int" where
  "moveLength raw ident =
     (if ident = ''player'' then b_length (r_playerCar raw)
      else case vehicleAt (r_vehicles raw) (parseInt (replaceFirst ''vehicle-'' [] ident)) of
             None \<Rightarrow> 2
           | Some v \<Rightarrow> rv_length v)"

text \<open>The callback of \<open>raw.validation.map\<close>.\<close>

definition rotateMove :: "RawPuzzle \<Rightarrow> PuzzleMove \<Rightarrow> PuzzleMove" where
  "rotateMove raw m =
     (let ori = moveOrientation raw (vehicleId m);
          len = moveLength raw (vehicleId m);
          rv = rotateVehicle (rows (r_gridSize raw))
                 \<lparr>b_row = m_row m, b_col = m_col m, b_length = len, b_orientation = ori\<rparr>
      in \<lparr>vehicleId = vehicleId m, m_row = b_row rv, m_col = b_col rv\<rparr>)"

text \<open>The callbacks of \<open>raw.vehicles.map\<close> and \<open>raw.obstacles.map\<close>.\<close>

definition rotateRawVehicle :: "int \<Rightarrow> RawVehicle \<Rightarrow> RawVehicle" where
  "rotateRawVehicle R v =
     (let rv = rotateVehicle R (bodyOf v)
      in \<lparr>rv_row = b_row rv, rv_col = b_col rv, rv_length = b_length rv,
          rv_orientation = b_orientation rv, rv_type = rv_type v, rv_color = rv_color v\<rparr>)"

definition rotateObstacle :: "int \<Rightarrow> RawObstacle \<Rightarrow> RawObstacle" where
  "rotateObstacle R obs =
     (let p = rotatePos R (ro_row obs) (ro_col obs)
      in \<lparr>ro_row = row p, ro_col = col p, ro_type = ro_type obs\<rparr>)"

definition rotatePuzzle90CW :: "RawPuzzle \<Rightarrow> RawPuzzle" where
  "rotatePuzzle90CW raw =
     (let R = rows (r_gridSize raw) in
      \<lparr>r_name = r_name raw,
       r_difficulty = r_difficulty raw,
       r_gridSize = \<lparr>rows = cols (r_gridSize raw), cols = R\<rparr>,
       r_exit = rotatePos R (row (r_exit raw)) (col (r_exit raw)),
       r_playerCar = rotateVehicle R (r_playerCar raw),
       r_vehicles = map (rotateRawVehicle R) (r_vehicles raw),
       r_obstacles = map (rotateObstacle R) (r_obstacles raw),
       r_validation =
         (case r_validation raw of
            None \<Rightarrow> None
          | Some ms \<Rightarrow> Some (map (rotateMove raw) ms))\<rparr>)"

section \<open>Specification vocabulary\<close>

text \<open>
  The placement invariants of the specification, over an assignment \<open>cells\<close> of occupied
  cells to the vehicles of a puzzle: every cell of every vehicle lies in
  \<open>[0, rows) \<times> [0, cols)\<close>, no two vehicles share a cell, and no vehicle covers the cell
  of an obstacle.
\<close>

definition allVehicles :: "Puzzle \<Rightarrow> Vehicle list" where
  "allVehicles p = playerCar p # vehicles p"

fun pairwiseDisjoint :: "'a list list \<Rightarrow> bool" where
  "pairwiseDisjoint [] = True"
| "pairwiseDisjoint (x # xs) = ((\<forall>y \<in> set xs. set x \<inter> set y = {}) \<and> pairwiseDisjoint xs)"

definition withinGrid :: "GridSize \<Rightarrow> (int \<times> int) \<Rightarrow> bool" where
  "withinGrid gs cell = (0 \<le> fst cell \<and> fst cell < rows gs \<and> 0 \<le> snd cell \<and> snd cell < cols gs)"

definition placed :: "Puzzle \<Rightarrow> (Vehicle \<Rightarrow> (int \<times> int) list) \<Rightarrow> bool" where
  "placed p cells =
     ((\<forall>v \<in> set (allVehicles p). \<forall>cell \<in> set (cells v). withinGrid (gridSize p) cell)
      \<and> pairwiseDisjoint (map cells (allVehicles p))
      \<and> (\<forall>v \<in> set (allVehicles p). \<forall>obs \<in> set (obstacles p).
            (o_row obs, o_col obs) \<notin> set (cells v)))"

text \<open>The cells a vehicle occupies in the template, and in a state of the engine.\<close>

definition templateCells :: "Vehicle \<Rightarrow> (int \<times> int) list" where
  "templateCells v = cellsFrom (v_orientation v) (v_length v) \<lparr>row = v_row v, col = v_col v\<rparr>"

definition currentCells :: "GameState \<Rightarrow> Vehicle \<Rightarrow> (int \<times> int) list" where
  "currentCells s v =
     (case vehiclePositions s (v_id v) of
        None \<Rightarrow> []
      | Some pos \<Rightarrow> cellsFrom (v_orientation v) (v_length v) pos)"

text \<open>
  A template is well placed when the identities of its vehicles are pairwise different and
  the template positions satisfy the placement invariants. A state is well placed when
  every vehicle has a position and the current positions satisfy them.
\<close>

definition templateOK :: "Puzzle \<Rightarrow> bool" where
  "templateOK p = (distinct (map v_id (allVehicles p)) \<and> placed p templateCells)"

definition positionsDefined :: "GameState \<Rightarrow> bool" where
  "positionsDefined s = (\<forall>v \<in> set (allVehicles (puzzle s)). vehiclePositions s (v_id v) \<noteq> None)"

definition stateOK :: "GameState \<Rightarrow> bool" where
  "stateOK s = (positionsDefined s \<and> placed (puzzle s) (currentCells s))"

text \<open>A caller's session: any sequence of \<open>moveVehicle\<close> and \<open>reset\<close> calls.\<close>

datatype call = MoveVehicle string Position | Reset

fun runCalls :: "GameEngine \<Rightarrow> call list \<Rightarrow> exn + GameEngine" where
  "runCalls e [] = Inr e"
| "runCalls e (MoveVehicle ident pos # cs) =
     (case moveVehicle e ident pos of
        Inl x \<Rightarrow> Inl x
      | Inr (ok, e') \<Rightarrow> runCalls e' cs)"
| "runCalls e (Reset # cs) = runCalls (reset e) cs"

text \<open>
  The engine a session leaves behind when it starts from a fresh engine for the puzzle
  (the fresh engine itself, should the session raise).
\<close>

definition engineAfter :: "Puzzle \<Rightarrow> call list \<Rightarrow> GameEngine" where
  "engineAfter p calls =
     (case runCalls (newGameEngine p) calls of Inl x \<Rightarrow> newGameEngine p | Inr e \<Rightarrow> e)"

text \<open>
  The cells held by everything but the entity \<open>ident\<close>: the vehicles of another identity
  at their current positions, and the obstacles.
\<close>

definition othersCells :: "GameState \<Rightarrow> string \<Rightarrow> (int \<times> int) set" where
  "othersCells s ident =
     (\<Union>v \<in> {v \<in> set (allVehicles (puzzle s)). v_id v \<noteq> ident}. set (currentCells s v))
     \<union> (\<lambda>obs. (o_row obs, o_col obs)) ` set (obstacles (puzzle s))"

text \<open>
  The four rules of move legality as the specification lists them: the entity exists, the
  coordinate across its axis is unchanged, and every target cell is inside the grid and
  free of the other entities.
\<close>

definition legalTarget :: "GameEngine \<Rightarrow> string \<Rightarrow> Position \<Rightarrow> bool" where
  "legalTarget e ident newPos =
     (case getVehicle e ident of
        None \<Rightarrow> False
      | Some vehicle \<Rightarrow>
          (case vehiclePositions (state e) ident of
             None \<Rightarrow> False
           | Some cur \<Rightarrow>
               (v_orientation vehicle = horizontal \<longrightarrow> row newPos = row cur)
               \<and> (v_orientation vehicle = vertical \<longrightarrow> col newPos = col cur)
               \<and> (\<forall>cell \<in> set (cellsFrom (v_orientation vehicle) (v_length vehicle) newPos).
                     withinGrid (gridSize (puzzle (state e))) cell
                     \<and> cell \<notin> othersCells (state e) ident)))"

text \<open>A target that is the entity's current position.\<close>

definition noOpTarget :: "GameEngine \<Rightarrow> string \<Rightarrow> Position \<Rightarrow> bool" where
  "noOpTarget e ident newPos =
     (case vehiclePositions (state e) ident of
        None \<Rightarrow> False
      | Some cur \<Rightarrow> row cur = row newPos \<and> col cur = col newPos)"

text \<open>The state after the position update and the increment of the counter.\<close>

definition movedState :: "GameState \<Rightarrow> string \<Rightarrow> Position \<Rightarrow> GameState" where
  "movedState s ident newPos =
     s\<lparr>vehiclePositions := (vehiclePositions s)(ident \<mapsto> \<lparr>row = row newPos, col = col newPos\<rparr>),
       moveCount := moveCount s + 1\<rparr>"

subsection \<open>Two scenarios of the specification\<close>

text \<open>
  A 3 by 3 grid with the player alone, one move from the exit; and a 4 by 4 grid where a
  vertical vehicle blocks the player's row, with an obstacle in a corner.
\<close>

definition scenario3x3 :: Puzzle where
  "scenario3x3 =
     \<lparr>p_id = ''scenario-3x3'', p_name = ''First move'', p_difficulty = tutorial,
      gridSize = \<lparr>rows = 3, cols = 3\<rparr>,
      exit = \<lparr>row = 1, col = 2, direction = right\<rparr>,
      playerCar = \<lparr>v_id = ''player'', v_row = 1, v_col = 0, v_length = 2,
                   v_orientation = horizontal, v_type = None, v_color = None\<rparr>,
      vehicles = [], obstacles = [],
      validation = Some [\<lparr>vehicleId = ''player'', m_row = 1, m_col = 1\<rparr>],
      validationResult = None\<rparr>"

definition scenario4x4 :: Puzzle where
  "scenario4x4 =
     \<lparr>p_id = ''scenario-4x4'', p_name = ''Blocked'', p_difficulty = easy,
      gridSize = \<lparr>rows = 4, cols = 4\<rparr>,
      exit = \<lparr>row = 1, col = 3, direction = right\<rparr>,
      playerCar = \<lparr>v_id = ''player'', v_row = 1, v_col = 0, v_length = 2,
                   v_orientation = horizontal, v_type = None, v_color = None\<rparr>,
      vehicles = [\<lparr>v_id = ''vehicle-0'', v_row = 0, v_col = 2, v_length = 2,
                   v_orientation = vertical, v_type = Some car, v_color = Some blue\<rparr>],
      obstacles = [\<lparr>o_id = ''obstacle-0'', o_row = 3, o_col = 0, o_type = tree\<rparr>],
      validation = Some [\<lparr>vehicleId = ''vehicle-0'', m_row = 2, m_col = 2\<rparr>,
                         \<lparr>vehicleId = ''player'', m_row = 1, m_col = 2\<rparr>],
      validationResult = None\<rparr>"

subsection \<open>Vocabulary for the replay validator\<close>

text \<open>
  A trace move is accepted by an engine when \<open>moveVehicle\<close> returns true for it;
  \<open>afterMoves e ms\<close> is the engine after the moves \<open>ms\<close> were submitted in order
  (a refused move leaves the engine as it was); step \<open>j\<close> (counted from 0) of a trace
  fails when its move is not accepted by the engine reached through the moves before it.
\<close>

definition tracePos :: "PuzzleMove \<Rightarrow> Position" where
  "tracePos m = \<lparr>row = m_row m, col = m_col m\<rparr>"

definition moveAccepted :: "GameEngine \<Rightarrow> PuzzleMove \<Rightarrow> bool" where
  "moveAccepted e m =
     (case moveVehicle e (vehicleId m) (tracePos m) of
        Inl x \<Rightarrow> False
      | Inr (applied, e') \<Rightarrow> applied)"

definition afterMove :: "GameEngine \<Rightarrow> PuzzleMove \<Rightarrow> GameEngine" where
  "afterMove e m =
     (case moveVehicle e (vehicleId m) (tracePos m) of
        Inl x \<Rightarrow> e
      | Inr (applied, e') \<Rightarrow> e')"

definition afterMoves :: "GameEngine \<Rightarrow> PuzzleMove list \<Rightarrow> GameEngine" where
  "afterMoves e ms = foldl afterMove e ms"

definition stepFails :: "Puzzle \<Rightarrow> PuzzleMove list \<Rightarrow> nat \<Rightarrow> bool" where
  "stepFails p ms j = (\<not> moveAccepted (afterMoves (newGameEngine p) (take j ms)) (ms ! j))"

definition invalidResult :: "string \<Rightarrow> ValidationResult" where
  "invalidResult reason = \<lparr>isValid = False, par = None, error = Some reason\<rparr>"

definition outOfBoundsTrace :: Puzzle where
  "outOfBoundsTrace =
     scenario3x3\<lparr>validation :=
       Some [\<lparr>vehicleId = ''player'', m_row = 1, m_col = 1\<rparr>,
             \<lparr>vehicleId = ''player'', m_row = 1, m_col = 3\<rparr>,
             \<lparr>vehicleId = ''player'', m_row = 1, m_col = 0\<rparr>]\<rparr>"

definition noWinTrace :: Puzzle where
  "noWinTrace =
     scenario4x4\<lparr>validation := Some [\<lparr>vehicleId = ''vehicle-0'', m_row = 2, m_col = 2\<rparr>]\<rparr>"

subsection \<open>Vocabulary for the rotation\<close>

text \<open>
  The cells of a body, by the engine's enumeration; the map \<open>(r, c) \<mapsto> (c, R - 1 - r)\<close>
  of absolute cells; the anchor rule of the specification (the image of the anchor for a
  horizontal vehicle, the image of the bottom cell for a vertical one); and what it means
  for \<open>b'\<close> to be \<open>b\<close> rotated: the cells of \<open>b'\<close> are the images of the cells of
  \<open>b\<close>, the length is kept, the orientation flips and the anchor follows the rule.
\<close>

definition bodyCells :: "Body \<Rightarrow> (int \<times> int) list" where
  "bodyCells b = cellsFrom (b_orientation b) (b_length b) \<lparr>row = b_row b, col = b_col b\<rparr>"

definition cellMap :: "int \<Rightarrow> int \<times> int \<Rightarrow> int \<times> int" where
  "cellMap R cell = (snd cell, R - 1 - fst cell)"

definition flipped :: "Orientation \<Rightarrow> Orientation" where
  "flipped ori = (if ori = horizontal then vertical else horizontal)"

definition rotatedAnchor :: "int \<Rightarrow> Orientation \<Rightarrow> int \<Rightarrow> int \<times> int \<Rightarrow> int \<times> int" where
  "rotatedAnchor R ori len anchor =
     (if ori = horizontal then cellMap R anchor
      else cellMap R (fst anchor + len - 1, snd anchor))"

definition rotatedBody :: "int \<Rightarrow> Body \<Rightarrow> Body \<Rightarrow> bool" where
  "rotatedBody R b b' =
     (set (bodyCells b') = cellMap R ` set (bodyCells b)
      \<and> b_length b' = b_length b
      \<and> b_orientation b' = flipped (b_orientation b)
      \<and> (b_row b', b_col b') = rotatedAnchor R (b_orientation b) (b_length b) (b_row b, b_col b))"

text \<open>
  The entity a waypoint names: the player, or the vehicle whose identity hydration builds
  from its index.
\<close>

definition entityOf :: "RawPuzzle \<Rightarrow> string \<Rightarrow> Body option" where
  "entityOf raw ident =
     (if ident = ''player'' then Some (r_playerCar raw)
      else map_option (\<lambda>i. bodyOf (r_vehicles raw ! i))
             (find (\<lambda>i. ident = ''vehicle-'' @ showNat i) [0..<length (r_vehicles raw)]))"

text \<open>
  An identity that \<open>rotateMove\<close> resolves to the player or to a vehicle of the array; for
  any other identity it falls back to horizontal and length 2.
\<close>

definition knownEntity :: "RawPuzzle \<Rightarrow> string \<Rightarrow> bool" where
  "knownEntity raw ident =
     (ident = ''player''
      \<or> vehicleAt (r_vehicles raw) (parseInt (replaceFirst ''vehicle-'' [] ident)) \<noteq> None)"

text \<open>\<open>rotateMove\<close> with the orientation and the length it looked up made explicit.\<close>

definition rotateWaypoint :: "int \<Rightarrow> Orientation \<Rightarrow> int \<Rightarrow> PuzzleMove \<Rightarrow> PuzzleMove" where
  "rotateWaypoint R ori len m =
     (let rv = rotateVehicle R \<lparr>b_row = m_row m, b_col = m_col m, b_length = len, b_orientation = ori\<rparr>
      in \<lparr>vehicleId = vehicleId m, m_row = b_row rv, m_col = b_col rv\<rparr>)"

subsection \<open>Vocabulary for hydration\<close>

text \<open>
  An exit on the grid periphery is a cell of the grid on one of its four edges; an exit
  strictly inside touches no edge. The raw form of the 4 by 4 scenario, and the same
  puzzle with its exit moved off the grid.
\<close>

definition onPeriphery :: "GridSize \<Rightarrow> Position \<Rightarrow> bool" where
  "onPeriphery gs ex =
     (0 \<le> row ex \<and> row ex < rows gs \<and> 0 \<le> col ex \<and> col ex < cols gs
      \<and> (row ex = 0 \<or> row ex = rows gs - 1 \<or> col ex = 0 \<or> col ex = cols gs - 1))"

definition strictlyInside :: "GridSize \<Rightarrow> Position \<Rightarrow> bool" where
  "strictlyInside gs ex =
     (0 < row ex \<and> row ex < rows gs - 1 \<and> 0 < col ex \<and> col ex < cols gs - 1)"

definition raw4x4 :: RawPuzzle where
  "raw4x4 =
     \<lparr>r_name = ''Blocked'', r_difficulty = easy,
      r_gridSize = \<lparr>rows = 4, cols = 4\<rparr>,
      r_exit = \<lparr>row = 1, col = 3\<rparr>,
      r_playerCar = \<lparr>b_row = 1, b_col = 0, b_length = 2, b_orientation = horizontal\<rparr>,
      r_vehicles = [\<lparr>rv_row = 0, rv_col = 2, rv_length = 2, rv_orientation = vertical,
                     rv_type = Some car, rv_color = Some blue\<rparr>],
      r_obstacles = [\<lparr>ro_row = 3, ro_col = 0, ro_type = tree\<rparr>],
      r_validation = Some [\<lparr>vehicleId = ''vehicle-0'', m_row = 2, m_col = 2\<rparr>,
                           \<lparr>vehicleId = ''player'', m_row = 1, m_col = 2\<rparr>]\<rparr>"

definition offGridExit :: RawPuzzle where
  "offGridExit = raw4x4\<lparr>r_exit := \<lparr>row = 1, col = 9\<rparr>\<rparr>"



section \<open>Properties of the engine\<close>

lemma dom_fold_upd:
  "dom (fold (\<lambda>k m. m(k \<mapsto> f k)) ks m) = dom m \<union> set ks"
  by (induction ks arbitrary: m) auto

lemma cellsFrom_nonpos: "len \<le> 0 \<Longrightarrow> cellsFrom ori len pos = []"
  by (simp add: cellsFrom_def)

lemma addVehicleCells_dom:
  assumes "vehiclePositions s (v_id v) \<noteq> None"
  shows "\<exists>occ'. addVehicleCells v (vehiclePositions s (v_id v)) occ = Inr occ'
           \<and> dom occ' = dom occ \<union> set (currentCells s v)"
  using assms
  by (auto simp: addVehicleCells_def currentCells_def cellsFrom_nonpos dom_fold_upd)

lemma addOtherVehicles_dom:
  assumes "\<forall>v \<in> set vs. vehiclePositions s (v_id v) \<noteq> None"
  shows "\<exists>occ'. addOtherVehicles s ex vs occ = Inr occ'
           \<and> dom occ' = dom occ \<union> (\<Union>v \<in> {v \<in> set vs. Some (v_id v) \<noteq> ex}. set (currentCells s v))"
  using assms
proof (induction vs arbitrary: occ)
  case Nil
  then show ?case by simp
next
  case (Cons v vs)
  show ?case
  proof (cases "Some (v_id v) = ex")
    case True
    then have "{w \<in> set (v # vs). Some (v_id w) \<noteq> ex} = {w \<in> set vs. Some (v_id w) \<noteq> ex}"
      by auto
    moreover from Cons.IH [of occ] Cons.prems obtain occ' where
      "addOtherVehicles s ex vs occ = Inr occ'"
      "dom occ' = dom occ \<union> (\<Union>v \<in> {v \<in> set vs. Some (v_id v) \<noteq> ex}. set (currentCells s v))"
      by auto
    ultimately show ?thesis using True by simp
  next
    case False
    from Cons.prems have "vehiclePositions s (v_id v) \<noteq> None" by simp
    from addVehicleCells_dom [OF this, of occ] obtain occ1 where
      o1: "addVehicleCells v (vehiclePositions s (v_id v)) occ = Inr occ1"
          "dom occ1 = dom occ \<union> set (currentCells s v)" by blast
    from Cons.IH [of occ1] Cons.prems obtain occ2 where
      o2: "addOtherVehicles s ex vs occ1 = Inr occ2"
          "dom occ2 = dom occ1 \<union> (\<Union>v \<in> {v \<in> set vs. Some (v_id v) \<noteq> ex}. set (currentCells s v))"
      by auto
    from False o1 o2 show ?thesis by auto
  qed
qed

lemma getOccupiedCells_dom:
  assumes "\<forall>v \<in> set (allVehicles (puzzle (state e))). vehiclePositions (state e) (v_id v) \<noteq> None"
  shows "\<exists>occ. getOccupiedCells e (Some ident) = Inr occ \<and> dom occ = othersCells (state e) ident"
proof -
  let ?s = "state e" and ?pc = "playerCar (puzzle (state e))"
  from assms have pd: "vehiclePositions ?s (v_id ?pc) \<noteq> None"
    and vd: "\<forall>v \<in> set (vehicles (puzzle ?s)). vehiclePositions ?s (v_id v) \<noteq> None"
    by (simp_all add: allVehicles_def)
  obtain occ1 where o1:
    "(if Some ident \<noteq> Some (v_id ?pc)
      then addVehicleCells ?pc (vehiclePositions ?s (v_id ?pc)) Map.empty
      else Inr Map.empty) = Inr occ1"
    "dom occ1 = (if v_id ?pc \<noteq> ident then set (currentCells ?s ?pc) else {})"
    using addVehicleCells_dom [OF pd, of Map.empty] by (cases "v_id ?pc = ident") auto
  from addOtherVehicles_dom [OF vd, of "Some ident" occ1] obtain occ2 where o2:
    "addOtherVehicles ?s (Some ident) (vehicles (puzzle ?s)) occ1 = Inr occ2"
    "dom occ2 = dom occ1 \<union> (\<Union>v \<in> {v \<in> set (vehicles (puzzle ?s)). Some (v_id v) \<noteq> Some ident}. set (currentCells ?s v))"
    by blast
  define occ3 where
    "occ3 = fold (\<lambda>obs occ. occ((o_row obs, o_col obs) \<mapsto> o_id obs)) (obstacles (puzzle ?s)) occ2"
  have g: "getOccupiedCells e (Some ident) = Inr occ3"
    using o1(1) o2(1) by (simp add: getOccupiedCells_def Let_def occ3_def)
  have "dom (fold (\<lambda>obs occ. occ((o_row obs, o_col obs) \<mapsto> o_id obs)) obss occ2)
        = dom occ2 \<union> (\<lambda>obs. (o_row obs, o_col obs)) ` set obss" for obss
    by (induction obss arbitrary: occ2) auto
  then have d3: "dom occ3 = dom occ2 \<union> (\<lambda>obs. (o_row obs, o_col obs)) ` set (obstacles (puzzle ?s))"
    by (simp add: occ3_def)
  have "dom occ3 = othersCells ?s ident"
    unfolding d3 o2(2) o1(2) othersCells_def allVehicles_def by auto
  with g show ?thesis by blast
qed

lemma getVehicle_SomeD:
  "getVehicle e ident = Some v \<Longrightarrow> v \<in> set (allVehicles (puzzle (state e))) \<and> v_id v = ident"
  by (auto simp: getVehicle_def allVehicles_def find_Some_iff split: if_splits)

lemma canMove_legalTarget:
  assumes "positionsDefined (state e)"
  shows "canMove e ident newPos = Inr (legalTarget e ident newPos)"
proof (cases "getVehicle e ident")
  case None
  then show ?thesis by (simp add: canMove_def legalTarget_def)
next
  case (Some vehicle)
  from getVehicle_SomeD [OF Some] assms obtain cur where
    cur: "vehiclePositions (state e) ident = Some cur"
    by (auto simp: positionsDefined_def)
  from assms getOccupiedCells_dom [of e ident] obtain occ where
    occ: "getOccupiedCells e (Some ident) = Inr occ" "dom occ = othersCells (state e) ident"
    by (auto simp: positionsDefined_def)
  have occ_iff: "occ cell \<noteq> None \<longleftrightarrow> cell \<in> othersCells (state e) ident" for cell
    using occ(2) by (auto simp: dom_def)
  let ?cells = "cellsFrom (v_orientation vehicle) (v_length vehicle) newPos"
  let ?gs = "gridSize (puzzle (state e))"
  have b: "(\<exists>(r, c) \<in> set ?cells. r < 0 \<or> r \<ge> rows ?gs \<or> c < 0 \<or> c \<ge> cols ?gs)
             \<longleftrightarrow> \<not> (\<forall>cell \<in> set ?cells. withinGrid ?gs cell)"
    by (fastforce simp: withinGrid_def)
  have o: "(\<exists>cell \<in> set ?cells. occ cell \<noteq> None)
             \<longleftrightarrow> \<not> (\<forall>cell \<in> set ?cells. cell \<notin> othersCells (state e) ident)"
    using occ_iff by blast
  have l: "legalTarget e ident newPos \<longleftrightarrow>
             (v_orientation vehicle = horizontal \<longrightarrow> row newPos = row cur)
             \<and> (v_orientation vehicle = vertical \<longrightarrow> col newPos = col cur)
             \<and> (\<forall>cell \<in> set ?cells. withinGrid ?gs cell)
             \<and> (\<forall>cell \<in> set ?cells. cell \<notin> othersCells (state e) ident)"
    unfolding legalTarget_def Some cur by auto
  show ?thesis
    unfolding canMove_def Some cur l
    by (simp only: option.case Let_def b o occ(1) sum.case) auto
qed

lemma pairwiseDisjoint_map_iff:
  assumes "distinct (map k vs)"
  shows "pairwiseDisjoint (map f vs) \<longleftrightarrow>
           (\<forall>v \<in> set vs. \<forall>w \<in> set vs. k v \<noteq> k w \<longrightarrow> set (f v) \<inter> set (f w) = {})"
  using assms
proof (induction vs)
  case Nil
  then show ?case by simp
next
  case (Cons a vs)
  then have ne: "\<forall>w \<in> set vs. k a \<noteq> k w" and d: "distinct (map k vs)" by auto
  have "pairwiseDisjoint (map f (a # vs)) \<longleftrightarrow>
          (\<forall>w \<in> set vs. set (f a) \<inter> set (f w) = {}) \<and> pairwiseDisjoint (map f vs)"
    by simp
  also have "\<dots> \<longleftrightarrow> (\<forall>w \<in> set vs. set (f a) \<inter> set (f w) = {})
      \<and> (\<forall>v \<in> set vs. \<forall>w \<in> set vs. k v \<noteq> k w \<longrightarrow> set (f v) \<inter> set (f w) = {})"
    using Cons.IH [OF d] by simp
  also have "\<dots> \<longleftrightarrow> (\<forall>v \<in> set (a # vs). \<forall>w \<in> set (a # vs). k v \<noteq> k w \<longrightarrow> set (f v) \<inter> set (f w) = {})"
    using ne by (auto simp: Int_commute) blast+
  finally show ?case .
qed

lemma placed_iff:
  assumes "distinct (map v_id (allVehicles p))"
  shows "placed p cells \<longleftrightarrow>
     (\<forall>v \<in> set (allVehicles p). \<forall>cell \<in> set (cells v). withinGrid (gridSize p) cell)
     \<and> (\<forall>v \<in> set (allVehicles p). \<forall>w \<in> set (allVehicles p).
            v_id v \<noteq> v_id w \<longrightarrow> set (cells v) \<inter> set (cells w) = {})
     \<and> (\<forall>v \<in> set (allVehicles p). \<forall>obs \<in> set (obstacles p). (o_row obs, o_col obs) \<notin> set (cells v))"
  unfolding placed_def pairwiseDisjoint_map_iff [OF assms] by simp

lemma fold_upd_other:
  "x \<notin> k ` set ws \<Longrightarrow> fold (\<lambda>v m. m(k v \<mapsto> g v)) ws m x = m x"
  by (induction ws arbitrary: m) auto

lemma fold_upd_distinct:
  assumes "distinct (map k vs)" "v \<in> set vs"
  shows "fold (\<lambda>v m. m(k v \<mapsto> g v)) vs m (k v) = Some (g v)"
  using assms
proof (induction vs arbitrary: m)
  case Nil
  then show ?case by simp
next
  case (Cons a vs)
  show ?case
  proof (cases "v = a")
    case True
    with Cons.prems have "k a \<notin> k ` set vs" by auto
    from fold_upd_other [OF this, of g "m(k a \<mapsto> g a)"]
    have "fold (\<lambda>v m. m(k v \<mapsto> g v)) vs (m(k a \<mapsto> g a)) (k a) = Some (g a)"
      by simp
    then show ?thesis unfolding True by (simp only: fold_simps)
  next
    case False
    with Cons show ?thesis by auto
  qed
qed

lemma initState_position:
  assumes "distinct (map v_id (allVehicles p))" "v \<in> set (allVehicles p)"
  shows "vehiclePositions (initState p) (v_id v) = Some \<lparr>row = v_row v, col = v_col v\<rparr>"
proof (cases "v \<in> set (vehicles p)")
  case True
  from assms(1) have "distinct (map v_id (vehicles p))" by (simp add: allVehicles_def)
  from fold_upd_distinct [OF this True, of "\<lambda>v. \<lparr>row = v_row v, col = v_col v\<rparr>"]
  show ?thesis by (simp add: initState_def)
next
  case False
  with assms have v: "v = playerCar p" and "v_id (playerCar p) \<notin> v_id ` set (vehicles p)"
    by (auto simp: allVehicles_def)
  from fold_upd_other [OF this(2), of "\<lambda>v. \<lparr>row = v_row v, col = v_col v\<rparr>"] v
  show ?thesis by (simp add: initState_def)
qed

lemma initState_puzzle [simp]: "puzzle (initState p) = p"
  by (simp add: initState_def)

lemma placed_cong:
  assumes "\<forall>v \<in> set (allVehicles p). f v = g v"
  shows "placed p f = placed p g"
proof -
  from assms have meq: "map f (allVehicles p) = map g (allVehicles p)" by simp
  show ?thesis unfolding placed_def meq using assms by auto
qed

lemma initState_stateOK:
  assumes "templateOK p"
  shows "stateOK (initState p)"
proof -
  from assms have d: "distinct (map v_id (allVehicles p))" and pl: "placed p templateCells"
    by (simp_all add: templateOK_def)
  have "\<forall>v \<in> set (allVehicles p). currentCells (initState p) v = templateCells v"
    by (simp add: currentCells_def templateCells_def initState_position [OF d])
  from placed_cong [OF this] pl have "placed p (currentCells (initState p))" by simp
  then show ?thesis by (simp add: stateOK_def positionsDefined_def initState_position [OF d])
qed

lemma checkWin_total:
  assumes "vehiclePositions s (v_id (playerCar (puzzle s))) \<noteq> None"
  shows "\<exists>won. checkWin s = Inr won"
  using assms by (auto simp: checkWin_def Let_def)

lemma legalTarget_position:
  "legalTarget e ident newPos \<Longrightarrow> \<exists>cur. vehiclePositions (state e) ident = Some cur"
  by (auto simp: legalTarget_def split: option.splits)

lemma moveVehicle_rejected:
  assumes "positionsDefined (state e)"
    and "\<not> legalTarget e ident newPos \<or> noOpTarget e ident newPos"
  shows "moveVehicle e ident newPos = Inr (False, e)"
  using assms(2) canMove_legalTarget [OF assms(1), of ident newPos]
  by (auto simp: moveVehicle_def noOpTarget_def dest: legalTarget_position)

lemma moveVehicle_applied:
  assumes pd: "positionsDefined (state e)"
    and legal: "legalTarget e ident newPos" and changed: "\<not> noOpTarget e ident newPos"
  shows "\<exists>won. checkWin (movedState (state e) ident newPos) = Inr won \<and>
           moveVehicle e ident newPos =
             Inr (True,
               \<lparr>state = (movedState (state e) ident newPos)
                          \<lparr>isComplete := won \<or> isComplete (state e)\<rparr>,
                moveHistory = moveHistory e @
                   [\<lparr>vehicleId = ident, m_row = row newPos, m_col = col newPos\<rparr>],
                notified = notified e @
                   [(movedState (state e) ident newPos)\<lparr>isComplete := won \<or> isComplete (state e)\<rparr>]\<rparr>)"
proof -
  let ?s1 = "movedState (state e) ident newPos"
  from legal obtain cur where cur: "vehiclePositions (state e) ident = Some cur"
    by (auto dest: legalTarget_position)
  with changed have ne: "\<not> (row cur = row newPos \<and> col cur = col newPos)"
    by (simp add: noOpTarget_def)
  from pd have "vehiclePositions (state e) (v_id (playerCar (puzzle (state e)))) \<noteq> None"
    by (simp add: positionsDefined_def allVehicles_def)
  then have "vehiclePositions ?s1 (v_id (playerCar (puzzle ?s1))) \<noteq> None"
    by (simp add: movedState_def)
  from checkWin_total [OF this] obtain won where won: "checkWin ?s1 = Inr won" by blast
  have "moveVehicle e ident newPos =
          Inr (True, notify (e\<lparr>state := (if won then ?s1\<lparr>isComplete := True\<rparr> else ?s1),
                               moveHistory := moveHistory e @
                                 [\<lparr>vehicleId = ident, m_row = row newPos, m_col = col newPos\<rparr>]\<rparr>))"
    using canMove_legalTarget [OF pd, of ident newPos] legal cur ne won
    by (simp add: moveVehicle_def Let_def movedState_def)
  moreover have "(if won then ?s1\<lparr>isComplete := True\<rparr> else ?s1)
                   = ?s1\<lparr>isComplete := won \<or> isComplete (state e)\<rparr>"
    by (simp add: movedState_def)
  ultimately show ?thesis using won by (simp add: notify_def)
qed

lemma getVehicle_unique:
  assumes "distinct (map v_id (allVehicles (puzzle (state e))))"
    and "getVehicle e ident = Some vehicle"
    and "v \<in> set (allVehicles (puzzle (state e)))" and "v_id v = ident"
  shows "v = vehicle"
proof -
  from assms(1) have "inj_on v_id (set (allVehicles (puzzle (state e))))"
    by (simp add: distinct_map)
  with getVehicle_SomeD [OF assms(2)] assms(3,4) show ?thesis
    by (auto dest: inj_onD)
qed

lemma movedState_stateOK:
  assumes d: "distinct (map v_id (allVehicles (puzzle (state e))))"
    and ok: "stateOK (state e)" and legal: "legalTarget e ident newPos"
  shows "stateOK ((movedState (state e) ident newPos)\<lparr>isComplete := c\<rparr>)"
proof -
  let ?s = "state e" and ?p = "puzzle (state e)"
  let ?s' = "(movedState ?s ident newPos)\<lparr>isComplete := c\<rparr>"
  let ?A = "set (allVehicles ?p)"
  from legal obtain vehicle where
    gv: "getVehicle e ident = Some vehicle"
    and free: "\<forall>cell \<in> set (cellsFrom (v_orientation vehicle) (v_length vehicle) newPos).
                withinGrid (gridSize ?p) cell \<and> cell \<notin> othersCells ?s ident"
    by (auto simp: legalTarget_def split: option.splits)
  let ?new = "cellsFrom (v_orientation vehicle) (v_length vehicle) newPos"
  have p': "puzzle ?s' = ?p" by (simp add: movedState_def)
  have cells: "currentCells ?s' v = (if v_id v = ident then ?new else currentCells ?s v)"
    if "v \<in> ?A" for v
    using getVehicle_unique [OF d gv that]
    by (auto simp: currentCells_def movedState_def cellsFrom_def)
  from ok have pl: "placed ?p (currentCells ?s)" and pd: "\<forall>v \<in> ?A. vehiclePositions ?s (v_id v) \<noteq> None"
    by (simp_all add: stateOK_def positionsDefined_def)
  note pl' = pl [unfolded placed_iff [OF d]]
  have others: "set (currentCells ?s w) \<subseteq> othersCells ?s ident" if "w \<in> ?A" "v_id w \<noteq> ident" for w
    using that by (auto simp: othersCells_def)
  have obst: "(o_row obs, o_col obs) \<in> othersCells ?s ident" if "obs \<in> set (obstacles ?p)" for obs
    using that by (auto simp: othersCells_def)
  have 1: "\<forall>v \<in> ?A. \<forall>cell \<in> set (currentCells ?s' v). withinGrid (gridSize ?p) cell"
    using pl' free by (simp add: cells)
  have 2: "\<forall>v \<in> ?A. \<forall>w \<in> ?A. v_id v \<noteq> v_id w \<longrightarrow>
             set (currentCells ?s' v) \<inter> set (currentCells ?s' w) = {}"
  proof (intro ballI impI)
    fix v w assume vw: "v \<in> ?A" "w \<in> ?A" "v_id v \<noteq> v_id w"
    show "set (currentCells ?s' v) \<inter> set (currentCells ?s' w) = {}"
    proof (cases "v_id v = ident")
      case True
      with vw others [of w] free show ?thesis by (auto simp: cells)
    next
      case False
      note nv = this
      show ?thesis
      proof (cases "v_id w = ident")
        case True
        with vw others [of v] free show ?thesis by (auto simp: cells)
      next
        case False
        with nv vw pl' show ?thesis by (simp add: cells)
      qed
    qed
  qed
  have 3: "\<forall>v \<in> ?A. \<forall>obs \<in> set (obstacles ?p). (o_row obs, o_col obs) \<notin> set (currentCells ?s' v)"
    using pl' free obst by (auto simp: cells)
  have "placed ?p (currentCells ?s')"
    unfolding placed_iff [OF d] using 1 2 3 by blast
  moreover have "\<forall>v \<in> ?A. vehiclePositions ?s' (v_id v) \<noteq> None"
    using pd by (simp add: movedState_def)
  ultimately show ?thesis unfolding stateOK_def positionsDefined_def p' by blast
qed

lemma moveVehicle_stateOK:
  assumes d: "distinct (map v_id (allVehicles (puzzle (state e))))" and ok: "stateOK (state e)"
  shows "\<exists>applied e'. moveVehicle e ident newPos = Inr (applied, e')
           \<and> puzzle (state e') = puzzle (state e) \<and> stateOK (state e')"
proof (cases "legalTarget e ident newPos \<and> \<not> noOpTarget e ident newPos")
  case False
  from ok have pd: "positionsDefined (state e)" by (simp add: stateOK_def)
  from False moveVehicle_rejected [OF pd, of ident newPos] ok show ?thesis by auto
next
  case True
  from ok have pd: "positionsDefined (state e)" by (simp add: stateOK_def)
  from True moveVehicle_applied [OF pd, of ident newPos] obtain won e1 where
    m: "moveVehicle e ident newPos = Inr (True, e1)"
    and e1: "state e1 = (movedState (state e) ident newPos)\<lparr>isComplete := won \<or> isComplete (state e)\<rparr>"
    by force
  from True movedState_stateOK [OF d ok, of ident newPos] e1
  have "stateOK (state e1)" by simp
  moreover from e1 have "puzzle (state e1) = puzzle (state e)" by (simp add: movedState_def)
  ultimately show ?thesis using m by blast
qed

lemma runCalls_stateOK:
  assumes "templateOK p" and "puzzle (state e) = p" and "stateOK (state e)"
  shows "\<exists>e'. runCalls e calls = Inr e' \<and> puzzle (state e') = p \<and> stateOK (state e')"
  using assms(2,3)
proof (induction calls arbitrary: e)
  case Nil
  then show ?case by simp
next
  case (Cons c calls)
  show ?case
  proof (cases c)
    case (MoveVehicle ident newPos)
    from assms(1) Cons.prems have "distinct (map v_id (allVehicles (puzzle (state e))))"
      by (simp add: templateOK_def)
    from moveVehicle_stateOK [OF this Cons.prems(2), of ident newPos] obtain applied e1 where
      m: "moveVehicle e ident newPos = Inr (applied, e1)"
         "puzzle (state e1) = puzzle (state e)" "stateOK (state e1)" by blast
    with Cons.IH [of e1] Cons.prems(1) MoveVehicle show ?thesis by simp
  next
    case Reset
    have "puzzle (state (reset e)) = p" "stateOK (state (reset e))"
      using Cons.prems(1) initState_stateOK [OF assms(1)] by (simp_all add: reset_def notify_def)
    with Cons.IH [of "reset e"] Reset show ?thesis by simp
  qed
qed

lemma moveVehicle_keeps_complete:
  assumes "moveVehicle e ident newPos = Inr (applied, e')" and "isComplete (state e)"
  shows "isComplete (state e')"
  using assms
  by (auto simp: moveVehicle_def Let_def notify_def split: sum.splits option.splits if_splits)

lemma runCalls_append:
  "runCalls e (cs @ ds) = (case runCalls e cs of Inl x \<Rightarrow> Inl x | Inr e' \<Rightarrow> runCalls e' ds)"
  by (induction e cs rule: runCalls.induct) (auto split: sum.splits)

lemma pairwiseDisjoint_map_neq:
  assumes "pairwiseDisjoint (map f vs)" "v \<in> set vs" "w \<in> set vs" "v \<noteq> w"
  shows "set (f v) \<inter> set (f w) = {}"
  using assms
proof (induction vs)
  case Nil
  then show ?case by simp
next
  case (Cons a vs)
  from Cons.prems(1) have first: "\<forall>u \<in> set vs. set (f a) \<inter> set (f u) = {}"
    and rest: "pairwiseDisjoint (map f vs)" by simp_all
  show ?case
  proof (cases "v = a")
    case True
    with Cons.prems have "w \<in> set vs" by auto
    with first True show ?thesis by blast
  next
    case False
    note va = this
    show ?thesis
    proof (cases "w = a")
      case True
      with Cons.prems va have "v \<in> set vs" by auto
      with first True show ?thesis by blast
    next
      case False
      with va Cons.prems have "v \<in> set vs" "w \<in> set vs" by auto
      from Cons.IH [OF rest this Cons.prems(4)] show ?thesis .
    qed
  qed
qed

lemma stay_legal:
  assumes ok: "stateOK (state e)" and gv: "getVehicle e ident = Some vehicle"
    and cur: "vehiclePositions (state e) ident = Some cur"
  shows "legalTarget e ident cur"
proof -
  let ?s = "state e" and ?p = "puzzle (state e)"
  from getVehicle_SomeD [OF gv] have vin: "vehicle \<in> set (allVehicles ?p)" and vid: "v_id vehicle = ident"
    by simp_all
  from ok have pl: "placed ?p (currentCells ?s)" by (simp add: stateOK_def)
  have cc: "currentCells ?s vehicle = cellsFrom (v_orientation vehicle) (v_length vehicle) cur"
    using cur vid by (simp add: currentCells_def)
  have inside: "\<forall>cell \<in> set (currentCells ?s vehicle). withinGrid (gridSize ?p) cell"
    using pl vin by (simp add: placed_def)
  have "set (currentCells ?s vehicle) \<inter> set (currentCells ?s w) = {}"
    if "w \<in> set (allVehicles ?p)" "v_id w \<noteq> ident" for w
  proof -
    from that vid have "vehicle \<noteq> w" by auto
    from pl have "pairwiseDisjoint (map (currentCells ?s) (allVehicles ?p))"
      by (simp add: placed_def)
    from pairwiseDisjoint_map_neq [OF this vin that(1) \<open>vehicle \<noteq> w\<close>] show ?thesis .
  qed
  moreover have "(o_row obs, o_col obs) \<notin> set (currentCells ?s vehicle)"
    if "obs \<in> set (obstacles ?p)" for obs
    using pl vin that by (simp add: placed_def)
  ultimately have "\<forall>cell \<in> set (currentCells ?s vehicle). cell \<notin> othersCells ?s ident"
    by (auto simp: othersCells_def)
  with inside show ?thesis
    by (simp add: legalTarget_def gv cur cc)
qed

lemma slideBackward_spec:
  assumes pd: "positionsDefined (state e)"
  shows "\<exists>mn'. slideBackward e ident isH cur mn = Inr mn' \<and> mn' \<le> mn
           \<and> (\<forall>k. mn' \<le> k \<and> k < mn \<longrightarrow> legalTarget e ident (testPos isH cur k))
           \<and> (\<not> legalTarget e ident (testPos isH cur (mn - 1)) \<longrightarrow> mn' = mn)"
  using pd
proof (induction e ident isH cur mn rule: slideBackward.induct)
  case (1 e ident isH cur mn)
  note pd = "1.prems"
  note cm = canMove_legalTarget [OF pd, of ident "testPos isH cur (mn - 1)"]
  show ?case
  proof (cases "mn > 0 \<and> legalTarget e ident (testPos isH cur (mn - 1))")
    case False
    have "slideBackward e ident isH cur mn = Inr mn"
    proof (cases "mn > 0")
      case True
      with False cm have "canMove e ident (testPos isH cur (mn - 1)) = Inr False" by simp
      then show ?thesis by (subst slideBackward.simps) simp
    next
      case False
      then show ?thesis by (subst slideBackward.simps) simp
    qed
    then show ?thesis by auto
  next
    case True
    with cm have c: "canMove e ident (testPos isH cur (mn - 1)) = Inr True" by simp
    have step: "slideBackward e ident isH cur mn = slideBackward e ident isH cur (mn - 1)"
      using True by (subst slideBackward.simps) (simp add: c)
    from True c "1.IH" [of True] pd obtain mn' where
      r: "slideBackward e ident isH cur (mn - 1) = Inr mn'" "mn' \<le> mn - 1"
         "\<forall>k. mn' \<le> k \<and> k < mn - 1 \<longrightarrow> legalTarget e ident (testPos isH cur k)"
      by auto
    have "legalTarget e ident (testPos isH cur k)" if "mn' \<le> k" "k < mn" for k
    proof (cases "k = mn - 1")
      case True
      with \<open>0 < mn \<and> legalTarget e ident (testPos isH cur (mn - 1))\<close> show ?thesis by simp
    next
      case False
      with that r(3) show ?thesis by simp
    qed
    with step r(1,2) True show ?thesis by auto
  qed
qed

lemma slideForward_spec:
  assumes pd: "positionsDefined (state e)"
  shows "\<exists>mx'. slideForward e ident isH cur len limit mx = Inr mx' \<and> mx \<le> mx'
           \<and> (\<forall>k. mx < k \<and> k \<le> mx' \<longrightarrow> legalTarget e ident (testPos isH cur k))
           \<and> (\<not> legalTarget e ident (testPos isH cur (mx + 1)) \<longrightarrow> mx' = mx)"
  using pd
proof (induction e ident isH cur len limit mx rule: slideForward.induct)
  case (1 e ident isH cur len limit mx)
  note pd = "1.prems"
  note cm = canMove_legalTarget [OF pd, of ident "testPos isH cur (mx + 1)"]
  show ?case
  proof (cases "mx + len < limit \<and> legalTarget e ident (testPos isH cur (mx + 1))")
    case False
    have "slideForward e ident isH cur len limit mx = Inr mx"
    proof (cases "mx + len < limit")
      case True
      with False cm have "canMove e ident (testPos isH cur (mx + 1)) = Inr False" by simp
      then show ?thesis by (subst slideForward.simps) simp
    next
      case False
      then show ?thesis by (subst slideForward.simps) simp
    qed
    then show ?thesis by auto
  next
    case True
    with cm have c: "canMove e ident (testPos isH cur (mx + 1)) = Inr True" by simp
    have step: "slideForward e ident isH cur len limit mx
                  = slideForward e ident isH cur len limit (mx + 1)"
      using True by (subst slideForward.simps) (simp add: c)
    from True c "1.IH" [of True] pd obtain mx' where
      r: "slideForward e ident isH cur len limit (mx + 1) = Inr mx'" "mx + 1 \<le> mx'"
         "\<forall>k. mx + 1 < k \<and> k \<le> mx' \<longrightarrow> legalTarget e ident (testPos isH cur k)"
      by auto
    have "legalTarget e ident (testPos isH cur k)" if "mx < k" "k \<le> mx'" for k
    proof (cases "k = mx + 1")
      case True
      with \<open>mx + len < limit \<and> legalTarget e ident (testPos isH cur (mx + 1))\<close>
      show ?thesis by simp
    next
      case False
      with that r(3) show ?thesis by simp
    qed
    with step r(1,2) True show ?thesis by auto
  qed
qed

lemma dom_fold_positions:
  "dom (fold (\<lambda>v m. m(k v \<mapsto> g v)) vs m) = dom m \<union> k ` set vs"
  by (induction vs arbitrary: m) auto

lemma initState_positionsDefined: "positionsDefined (initState p)"
proof -
  have "dom (vehiclePositions (initState p)) = v_id ` set (allVehicles p)"
    by (simp add: initState_def dom_fold_positions allVehicles_def)
  then show ?thesis by (auto simp: positionsDefined_def)
qed

lemma moveVehicle_positionsDefined:
  assumes pd: "positionsDefined (state e)"
  shows "\<exists>applied e'. moveVehicle e ident newPos = Inr (applied, e') \<and> positionsDefined (state e')
           \<and> (\<not> applied \<longrightarrow> e' = e)"
proof (cases "legalTarget e ident newPos \<and> \<not> noOpTarget e ident newPos")
  case False
  from False moveVehicle_rejected [OF pd, of ident newPos] pd show ?thesis by auto
next
  case True
  from True moveVehicle_applied [OF pd, of ident newPos] obtain won e1 where
    m: "moveVehicle e ident newPos = Inr (True, e1)"
    and e1: "state e1 = (movedState (state e) ident newPos)\<lparr>isComplete := won \<or> isComplete (state e)\<rparr>"
    by force
  from pd e1 have "positionsDefined (state e1)"
    by (simp add: positionsDefined_def movedState_def)
  with m show ?thesis by blast
qed

lemma replay_all_accepted:
  assumes "positionsDefined (state e)"
    and "\<forall>j < length ms. moveAccepted (afterMoves e (take j ms)) (ms ! j)"
  shows "replay e ms i = Inr (None, afterMoves e ms)"
  using assms
proof (induction ms arbitrary: e i)
  case Nil
  then show ?case by (simp add: afterMoves_def)
next
  case (Cons m ms)
  from moveVehicle_positionsDefined [OF Cons.prems(1), of "vehicleId m" "tracePos m"]
  obtain applied e1 where
    mv: "moveVehicle e (vehicleId m) (tracePos m) = Inr (applied, e1)"
    and pd1: "positionsDefined (state e1)" by blast
  from Cons.prems(2) [rule_format, of 0] mv have ap: applied
    by (simp add: moveAccepted_def afterMoves_def)
  have e1: "afterMove e m = e1" using mv by (simp add: afterMove_def)
  have "\<forall>j < length ms. moveAccepted (afterMoves e1 (take j ms)) (ms ! j)"
  proof (intro allI impI)
    fix j assume "j < length ms"
    with Cons.prems(2) [rule_format, of "Suc j"] show "moveAccepted (afterMoves e1 (take j ms)) (ms ! j)"
      by (simp add: afterMoves_def e1)
  qed
  from Cons.IH [OF pd1 this, of "i + 1"] mv ap show ?case
    by (simp add: afterMoves_def e1 tracePos_def)
qed

lemma replay_first_failure:
  assumes "positionsDefined (state e)" and "k < length ms"
    and "\<forall>j < k. moveAccepted (afterMoves e (take j ms)) (ms ! j)"
    and "\<not> moveAccepted (afterMoves e (take k ms)) (ms ! k)"
  shows "replay e ms i = Inr (Some (i + k + 1), afterMoves e (take k ms))"
  using assms
proof (induction ms arbitrary: e i k)
  case Nil
  then show ?case by simp
next
  case (Cons m ms)
  from moveVehicle_positionsDefined [OF Cons.prems(1), of "vehicleId m" "tracePos m"]
  obtain applied e1 where
    mv: "moveVehicle e (vehicleId m) (tracePos m) = Inr (applied, e1)"
    and pd1: "positionsDefined (state e1)" and same: "\<not> applied \<longrightarrow> e1 = e" by blast
  have e1: "afterMove e m = e1" using mv by (simp add: afterMove_def)
  show ?case
  proof (cases k)
    case 0
    with Cons.prems(4) mv have "\<not> applied" by (simp add: moveAccepted_def afterMoves_def)
    with mv same 0 show ?thesis by (simp add: afterMoves_def tracePos_def)
  next
    case (Suc k')
    from Cons.prems(3) [rule_format, of 0] Suc mv have ap: applied
      by (simp add: moveAccepted_def afterMoves_def)
    have a: "\<forall>j < k'. moveAccepted (afterMoves e1 (take j ms)) (ms ! j)"
    proof (intro allI impI)
      fix j assume "j < k'"
      with Cons.prems(3) [rule_format, of "Suc j"] Suc
      show "moveAccepted (afterMoves e1 (take j ms)) (ms ! j)"
        by (simp add: afterMoves_def e1)
    qed
    from Cons.prems(4) Suc have b: "\<not> moveAccepted (afterMoves e1 (take k' ms)) (ms ! k')"
      by (simp add: afterMoves_def e1)
    from Cons.prems(2) Suc have c: "k' < length ms" by simp
    from Cons.IH [OF pd1 c a b, of "i + 1"] mv ap Suc show ?thesis
      by (simp add: afterMoves_def e1 tracePos_def)
  qed
qed

lemma moveVehicle_history:
  assumes "moveVehicle e ident newPos = Inr (True, e')"
  shows "moveHistory e' = moveHistory e @ [\<lparr>vehicleId = ident, m_row = row newPos, m_col = col newPos\<rparr>]"
  using assms
  by (auto simp: moveVehicle_def Let_def notify_def split: sum.splits option.splits if_splits)

lemma afterMoves_history:
  assumes "positionsDefined (state e)"
    and "\<forall>j < length ms. moveAccepted (afterMoves e (take j ms)) (ms ! j)"
  shows "moveHistory (afterMoves e ms) = moveHistory e @ ms"
  using assms
proof (induction ms arbitrary: e)
  case Nil
  then show ?case by (simp add: afterMoves_def)
next
  case (Cons m ms)
  from moveVehicle_positionsDefined [OF Cons.prems(1), of "vehicleId m" "tracePos m"]
  obtain applied e1 where
    mv: "moveVehicle e (vehicleId m) (tracePos m) = Inr (applied, e1)"
    and pd1: "positionsDefined (state e1)" by blast
  from Cons.prems(2) [rule_format, of 0] mv have ap: applied
    by (simp add: moveAccepted_def afterMoves_def)
  have e1: "afterMove e m = e1" using mv by (simp add: afterMove_def)
  have "\<forall>j < length ms. moveAccepted (afterMoves e1 (take j ms)) (ms ! j)"
  proof (intro allI impI)
    fix j assume "j < length ms"
    with Cons.prems(2) [rule_format, of "Suc j"] show "moveAccepted (afterMoves e1 (take j ms)) (ms ! j)"
      by (simp add: afterMoves_def e1)
  qed
  from Cons.IH [OF pd1 this] moveVehicle_history [of e "vehicleId m" "tracePos m" e1] mv ap
  show ?case by (simp add: afterMoves_def e1 tracePos_def)
qed

lemma moveVehicle_puzzle:
  assumes "moveVehicle e ident newPos = Inr (applied, e')"
  shows "puzzle (state e') = puzzle (state e)"
  using assms
  by (auto simp: moveVehicle_def Let_def notify_def split: sum.splits option.splits if_splits)

lemma afterMoves_puzzle: "puzzle (state (afterMoves e ms)) = puzzle (state e)"
proof (induction ms arbitrary: e)
  case Nil
  then show ?case by (simp add: afterMoves_def)
next
  case (Cons m ms)
  have "puzzle (state (afterMove e m)) = puzzle (state e)"
    by (auto simp: afterMove_def split: sum.splits dest: moveVehicle_puzzle)
  with Cons.IH [of "afterMove e m"] show ?case by (simp add: afterMoves_def)
qed


section \<open>Properties of hydration and rotation\<close>

lemma digitValue_digitChar: "d < 10 \<Longrightarrow> digitValue (digitChar d) = Some d"
  by (simp add: digitValue_def digitChar_def Let_def)

lemma isRadixDigit_digitChar: "d < 10 \<Longrightarrow> isRadixDigit 10 (digitChar d)"
  by (simp add: isRadixDigit_def digitValue_digitChar)

lemma showNat_digits: "c \<in> set (showNat n) \<Longrightarrow> \<exists>d < 10. c = digitChar d"
proof (induction n arbitrary: c rule: showNat.induct)
  case (1 n)
  show ?case
  proof (cases "n < 10")
    case True
    with "1.prems" show ?thesis by (subst (asm) showNat.simps) auto
  next
    case False
    with "1.prems" have "c \<in> set (showNat (n div 10)) \<or> c = digitChar (n mod 10)"
      by (subst (asm) showNat.simps) auto
    with "1.IH" [OF False] show ?thesis by (auto intro: exI [of _ "n mod 10"])
  qed
qed

lemma showNat_nonempty: "showNat n \<noteq> []"
  by (subst showNat.simps) simp

lemma digitsValue_snoc:
  "digitsValue r (ds @ [c]) = digitsValue r ds * r + (case digitValue c of None \<Rightarrow> 0 | Some d \<Rightarrow> d)"
  by (simp add: digitsValue_def)

lemma digitsValue_showNat: "digitsValue 10 (showNat n) = n"
proof (induction n rule: showNat.induct)
  case (1 n)
  show ?case
  proof (cases "n < 10")
    case True
    then show ?thesis
      by (subst showNat.simps) (simp add: digitsValue_def digitValue_digitChar)
  next
    case False
    have "digitsValue 10 (showNat n) = digitsValue 10 (showNat (n div 10) @ [digitChar (n mod 10)])"
      using False by (subst showNat.simps) simp
    also have "\<dots> = n div 10 * 10 + n mod 10"
      using "1.IH" [OF False] by (simp add: digitsValue_snoc digitValue_digitChar)
    finally show ?thesis by simp
  qed
qed

lemma of_char_digitChar: "d < 10 \<Longrightarrow> of_char (digitChar d) = 48 + d"
  by (simp add: digitChar_def)

lemma digitChar_neq:
  assumes "d < 10" and "(of_char c :: nat) < 48 \<or> 57 < (of_char c :: nat)"
  shows "digitChar d \<noteq> c"
proof
  assume "digitChar d = c"
  then have "of_char (digitChar d) = (of_char c :: nat)" by simp
  with of_char_digitChar [OF assms(1)] assms show False by auto
qed

lemma digitChar_cases:
  assumes "d < 10"
  shows "\<not> isStrWhiteSpace (digitChar d)" "digitChar d \<noteq> CHR ''-''" "digitChar d \<noteq> CHR ''+''"
    "digitChar d \<noteq> CHR ''x''" "digitChar d \<noteq> CHR ''X''"
proof -
  show "\<not> isStrWhiteSpace (digitChar d)"
    using assms by (simp add: isStrWhiteSpace_def of_char_digitChar)
  show "digitChar d \<noteq> CHR ''-''" by (rule digitChar_neq [OF assms]) simp
  show "digitChar d \<noteq> CHR ''+''" by (rule digitChar_neq [OF assms]) simp
  show "digitChar d \<noteq> CHR ''x''" by (rule digitChar_neq [OF assms]) simp
  show "digitChar d \<noteq> CHR ''X''" by (rule digitChar_neq [OF assms]) simp
qed

lemma parseInt_showNat: "parseInt (showNat n) = Some (int n)"
proof -
  let ?s = "showNat n"
  have dig: "\<forall>c \<in> set ?s. \<exists>d < 10. c = digitChar d" using showNat_digits by blast
  obtain c cs where s: "?s = c # cs" using showNat_nonempty [of n] by (cases ?s) auto
  from dig s obtain d where d: "d < 10" "c = digitChar d" by auto
  have ws: "dropWhile isStrWhiteSpace ?s = ?s"
    using digitChar_cases(1) [OF d(1)] d(2) s by simp
  have sg: "\<not> prefix ''-'' ?s" "\<not> prefix ''+'' ?s"
    using digitChar_cases(2,3) [OF d(1)] d(2) s by simp_all
  have hx: "\<not> prefix ''0x'' ?s" "\<not> prefix ''0X'' ?s"
  proof -
    show "\<not> prefix ''0x'' ?s"
    proof (cases cs)
      case Nil
      with s show ?thesis by simp
    next
      case (Cons c2 cs2)
      with dig s obtain d2 where "d2 < 10" "c2 = digitChar d2" by auto
      with digitChar_cases(4) [of d2] s Cons show ?thesis by simp
    qed
    show "\<not> prefix ''0X'' ?s"
    proof (cases cs)
      case Nil
      with s show ?thesis by simp
    next
      case (Cons c2 cs2)
      with dig s obtain d2 where "d2 < 10" "c2 = digitChar d2" by auto
      with digitChar_cases(5) [of d2] s Cons show ?thesis by simp
    qed
  qed
  have tw: "takeWhile (isRadixDigit 10) ?s = ?s"
    using dig by (auto simp: takeWhile_eq_all_conv isRadixDigit_digitChar)
  show ?thesis
    unfolding parseInt_def Let_def ws using sg hx
    by (simp add: tw showNat_nonempty digitsValue_showNat)
qed

lemma replaceFirst_vehicle_prefix: "replaceFirst ''vehicle-'' [] (''vehicle-'' @ s) = s"
  by simp

lemma showNat_inj:
  assumes "showNat m = showNat n"
  shows "m = n"
proof -
  have "Some (int m) = parseInt (showNat m)" by (simp only: parseInt_showNat)
  also have "\<dots> = parseInt (showNat n)" by (simp only: assms)
  also have "\<dots> = Some (int n)" by (simp only: parseInt_showNat)
  finally show ?thesis by simp
qed

lemma vehicleAt_index:
  assumes "i < length vs"
  shows "vehicleAt vs (parseInt (replaceFirst ''vehicle-'' [] (''vehicle-'' @ showNat i))) = Some (vs ! i)"
  unfolding replaceFirst_vehicle_prefix using assms by (simp add: vehicleAt_def parseInt_showNat)

lemma reindex: "(\<lambda>j. f (L - 1 - j)) ` {0..L - 1} = f ` {0..L - 1 :: int}"
proof -
  have flip: "(\<lambda>j. L - 1 - j) ` {0..L - 1} = {0..L - 1}"
    by (auto simp: image_iff intro: bexI [of _ "L - 1 - x" for x])
  have "(\<lambda>j. f (L - 1 - j)) ` {0..L - 1} = f ` ((\<lambda>j. L - 1 - j) ` {0..L - 1})"
    by (simp only: image_image)
  also have "\<dots> = f ` {0..L - 1}" by (simp only: flip)
  finally show ?thesis .
qed

lemma rotateVehicle_rotatedBody: "rotatedBody R b (rotateVehicle R b)"
proof (cases "b_orientation b")
  case horizontal
  then show ?thesis
    by (simp add: rotatedBody_def rotateVehicle_def rotatePos_def bodyCells_def cellsFrom_def
        cellMap_def flipped_def rotatedAnchor_def image_image)
next
  case vertical
  let ?L = "b_length b"
  have "(\<lambda>x. (b_col b, R - 1 - (b_row b + ?L - 1) + x)) ` {0..?L - 1}
        = (\<lambda>j. (b_col b, R - 1 - (b_row b + (?L - 1 - j)))) ` {0..?L - 1}"
    by (rule image_cong) auto
  also have "\<dots> = (\<lambda>x. (b_col b, R - 1 - (b_row b + x))) ` {0..?L - 1}"
    by (rule reindex [of "\<lambda>x. (b_col b, R - 1 - (b_row b + x))"])
  finally show ?thesis using vertical
    by (simp add: rotatedBody_def rotateVehicle_def rotatePos_def bodyCells_def cellsFrom_def
        cellMap_def flipped_def rotatedAnchor_def image_image Let_def)
qed

lemma rotated_fields [simp]:
  "r_name (rotatePuzzle90CW raw) = r_name raw"
  "r_difficulty (rotatePuzzle90CW raw) = r_difficulty raw"
  "r_gridSize (rotatePuzzle90CW raw) = \<lparr>rows = cols (r_gridSize raw), cols = rows (r_gridSize raw)\<rparr>"
  "r_exit (rotatePuzzle90CW raw) = rotatePos (rows (r_gridSize raw)) (row (r_exit raw)) (col (r_exit raw))"
  "r_playerCar (rotatePuzzle90CW raw) = rotateVehicle (rows (r_gridSize raw)) (r_playerCar raw)"
  "r_vehicles (rotatePuzzle90CW raw) = map (rotateRawVehicle (rows (r_gridSize raw))) (r_vehicles raw)"
  "r_obstacles (rotatePuzzle90CW raw) = map (rotateObstacle (rows (r_gridSize raw))) (r_obstacles raw)"
  "r_validation (rotatePuzzle90CW raw) = map_option (map (rotateMove raw)) (r_validation raw)"
  by (simp_all add: rotatePuzzle90CW_def Let_def split: option.splits)

lemma bodyOf_rotateRawVehicle: "bodyOf (rotateRawVehicle R v) = rotateVehicle R (bodyOf v)"
  by (simp add: rotateRawVehicle_def Let_def bodyOf_def)

lemma entityOf_lookup:
  assumes "entityOf raw ident = Some b"
  shows "moveOrientation raw ident = b_orientation b \<and> moveLength raw ident = b_length b"
proof (cases "ident = ''player''")
  case True
  with assms show ?thesis by (simp add: entityOf_def moveOrientation_def moveLength_def)
next
  case False
  with assms obtain i where
    f: "find (\<lambda>i. ident = ''vehicle-'' @ showNat i) [0..<length (r_vehicles raw)] = Some i"
    and b: "b = bodyOf (r_vehicles raw ! i)"
    by (auto simp: entityOf_def)
  from f have i: "i < length (r_vehicles raw)" and ident: "ident = ''vehicle-'' @ showNat i"
    by (auto simp: find_Some_iff)
  from vehicleAt_index [OF i] ident
  have "vehicleAt (r_vehicles raw) (parseInt (replaceFirst ''vehicle-'' [] ident)) = Some (r_vehicles raw ! i)"
    by simp
  with False b show ?thesis by (simp add: moveOrientation_def moveLength_def bodyOf_def)
qed

lemma rotatePos_four:
  "rotatePos C (row (rotatePos R (row (rotatePos C (row (rotatePos R r c)) (col (rotatePos R r c))))
                                 (col (rotatePos C (row (rotatePos R r c)) (col (rotatePos R r c))))))
               (col (rotatePos R (row (rotatePos C (row (rotatePos R r c)) (col (rotatePos R r c))))
                                 (col (rotatePos C (row (rotatePos R r c)) (col (rotatePos R r c))))))
   = \<lparr>row = r, col = c\<rparr>"
  by (simp add: rotatePos_def)

lemma rotateVehicle_four:
  "rotateVehicle C (rotateVehicle R (rotateVehicle C (rotateVehicle R b))) = b"
  by (cases b; cases "b_orientation b") (simp_all add: rotateVehicle_def rotatePos_def Let_def)

lemma rotateRawVehicle_four:
  "rotateRawVehicle C (rotateRawVehicle R (rotateRawVehicle C (rotateRawVehicle R v))) = v"
  by (cases v; cases "rv_orientation v")
     (simp_all add: rotateRawVehicle_def rotateVehicle_def rotatePos_def bodyOf_def Let_def)

lemma rotateObstacle_four:
  "rotateObstacle C (rotateObstacle R (rotateObstacle C (rotateObstacle R obs))) = obs"
  by (cases obs) (simp add: rotateObstacle_def rotatePos_def Let_def)

lemma vehicleAt_map: "vehicleAt (map f vs) idx = map_option f (vehicleAt vs idx)"
  by (auto simp: vehicleAt_def split: option.splits)

lemma rotated_lookup:
  "moveLength (rotatePuzzle90CW raw) ident = moveLength raw ident"
  "moveOrientation (rotatePuzzle90CW raw) ident
     = (if knownEntity raw ident then flipped (moveOrientation raw ident) else horizontal)"
  "knownEntity (rotatePuzzle90CW raw) ident = knownEntity raw ident"
  "\<not> knownEntity raw ident \<Longrightarrow> moveOrientation raw ident = horizontal"
  by (auto simp: moveLength_def moveOrientation_def knownEntity_def vehicleAt_map flipped_def
      rotateRawVehicle_def rotateVehicle_def bodyOf_def Let_def
      split: option.splits)

lemma rotateMove_waypoint:
  "rotateMove raw m
     = rotateWaypoint (rows (r_gridSize raw)) (moveOrientation raw (vehicleId m))
         (moveLength raw (vehicleId m)) m"
  by (simp add: rotateMove_def rotateWaypoint_def Let_def)

lemma rotateWaypoint_id [simp]: "vehicleId (rotateWaypoint R ori len m) = vehicleId m"
  by (simp add: rotateWaypoint_def Let_def)

lemma rotateWaypoint_four:
  "rotateWaypoint C (flipped ori) len (rotateWaypoint R ori len
     (rotateWaypoint C (flipped ori) len (rotateWaypoint R ori len m))) = m"
  "rotateWaypoint C horizontal len (rotateWaypoint R horizontal len
     (rotateWaypoint C horizontal len (rotateWaypoint R horizontal len m))) = m"
  by (cases m; cases ori;
      simp add: rotateWaypoint_def rotateVehicle_def rotatePos_def flipped_def Let_def)+

lemma flipped_flipped [simp]: "flipped (flipped ori) = ori"
  by (cases ori) (simp_all add: flipped_def)

lemma rotateMove_four:
  "rotateMove (rotatePuzzle90CW (rotatePuzzle90CW (rotatePuzzle90CW raw)))
     (rotateMove (rotatePuzzle90CW (rotatePuzzle90CW raw))
        (rotateMove (rotatePuzzle90CW raw) (rotateMove raw m))) = m"
proof (cases "knownEntity raw (vehicleId m)")
  case True
  then show ?thesis
    by (simp add: rotateMove_waypoint rotated_lookup rotateWaypoint_four(1))
next
  case False
  then show ?thesis
    by (simp add: rotateMove_waypoint rotated_lookup rotateWaypoint_four(2))
qed

lemma hydrateVehicles_ids:
  "map v_id (hydrateVehicles i st vs) = map (\<lambda>k. ''vehicle-'' @ showNat k) [i..<i + length vs]"
proof (induction vs arbitrary: i st)
  case Nil
  then show ?case by simp
next
  case (Cons v vs)
  have "[i..<i + length (v # vs)] = i # [Suc i..<Suc i + length vs]"
    by (simp add: upt_rec)
  with Cons.IH [of "Suc i"] show ?case
    by (simp split: option.splits prod.splits)
qed

lemma hydratePuzzle_distinct:
  assumes "hydratePuzzle raw ident = Inr p"
  shows "distinct (map v_id (allVehicles p))"
proof -
  let ?n = "length (r_vehicles raw)"
  from assms have pc: "v_id (playerCar p) = ''player''"
    and vs: "map v_id (vehicles p) = map (\<lambda>k. ''vehicle-'' @ showNat k) [0..<?n]"
    by (auto simp: hydratePuzzle_def hydrateVehicles_ids split: sum.splits)
  have "inj_on (\<lambda>k. ''vehicle-'' @ showNat k) (set [0..<?n])"
    by (rule inj_onI) (simp add: showNat_inj)
  then have "distinct (map (\<lambda>k. ''vehicle-'' @ showNat k) [0..<?n])"
    by (simp add: distinct_map)
  moreover have "''player'' \<notin> set (map (\<lambda>k. ''vehicle-'' @ showNat k) [0..<?n])"
    by auto
  ultimately show ?thesis by (simp add: allVehicles_def pc vs)
qed

lemma deduceExitDirection_periphery:
  assumes "onPeriphery gs ex"
  shows "deduceExitDirection ex gs =
           Inr (if col ex = cols gs - 1 then right
                else if col ex = 0 then left
                else if row ex = rows gs - 1 then down
                else up)"
  using assms by (auto simp: deduceExitDirection_def onPeriphery_def)

lemma deduceExitDirection_aborts_iff:
  "isl (deduceExitDirection ex gs) \<longleftrightarrow> strictlyInside gs ex"
  by (auto simp: deduceExitDirection_def strictlyInside_def)

lemma hydratePuzzle_exit:
  "hydratePuzzle raw ident = Inr p \<Longrightarrow>
     deduceExitDirection (r_exit raw) (r_gridSize raw) = Inr (direction (exit p))"
  "isl (hydratePuzzle raw ident) \<longleftrightarrow> isl (deduceExitDirection (r_exit raw) (r_gridSize raw))"
  by (auto simp: hydratePuzzle_def split: sum.splits)

lemma offGridExit_never_won:
  assumes h: "hydratePuzzle offGridExit ident = Inr p" and s: "puzzle s = p" and ok: "stateOK s"
  shows "checkWin s = Inr False"
proof -
  from h have pc: "playerCar p = \<lparr>v_id = ''player'', v_row = 1, v_col = 0, v_length = 2,
                     v_orientation = horizontal, v_type = None, v_color = None\<rparr>"
    and ex: "exit p = \<lparr>row = 1, col = 9, direction = right\<rparr>"
    and gs: "gridSize p = \<lparr>rows = 4, cols = 4\<rparr>"
    by (auto simp: hydratePuzzle_def offGridExit_def raw4x4_def deduceExitDirection_def
        split: sum.splits if_splits)
  from ok s obtain pos where pos: "vehiclePositions s ''player'' = Some pos"
    by (auto simp: stateOK_def positionsDefined_def allVehicles_def pc)
  from ok s have "\<forall>cell \<in> set (currentCells s (playerCar p)). withinGrid (gridSize p) cell"
    by (simp add: stateOK_def placed_def allVehicles_def)
  then have "col pos + 1 < 4"
    by (simp add: currentCells_def pc pos cellsFrom_def gs withinGrid_def upto_rec1)
  then show ?thesis
    by (simp add: checkWin_def Let_def s pc ex pos)
qed


section \<open>The claims about the engine\<close>

text \<open>
  C1. For every puzzle template whose vehicles have pairwise different identities and
  whose initial placement satisfies the placement invariants, every sequence of
  \<open>moveVehicle\<close> and \<open>reset\<close> calls on an engine constructed from the template runs
  without raising, and leaves an engine of the same template in which every vehicle has a
  position, every occupied cell of every vehicle lies within the grid, no two vehicles
  share a cell and no vehicle covers an obstacle.
\<close>

theorem placement_invariants_preserved:
  assumes "templateOK p"
  shows "\<exists>e. runCalls (newGameEngine p) calls = Inr e
           \<and> puzzle (state e) = p \<and> stateOK (state e)"
  using runCalls_stateOK [OF assms, of "newGameEngine p" calls] initState_stateOK [OF assms]
  by (simp add: newGameEngine_def)

theorem placement_invariants_preserved_witness:
  "templateOK scenario4x4 \<and>
   (\<exists>e. runCalls (newGameEngine scenario4x4)
           [MoveVehicle ''vehicle-0'' \<lparr>row = 2, col = 2\<rparr>,
            MoveVehicle ''player'' \<lparr>row = 1, col = 2\<rparr>,
            Reset,
            MoveVehicle ''player'' \<lparr>row = 1, col = 1\<rparr>] = Inr e
         \<and> puzzle (state e) = scenario4x4 \<and> stateOK (state e))"
proof -
  have h: "templateOK scenario4x4" by code_simp
  from h placement_invariants_preserved [OF h] show ?thesis by blast
qed

text \<open>
  C4. With the player at position \<open>pos\<close>, the win predicate returns true exactly in the
  four cases: a horizontal player and a right exit with the same row and anchor column +
  length - 1 at the exit column; a horizontal player and a left exit with the same row and
  the anchor column at the exit column; a vertical player and a down exit with the same
  column and anchor row + length - 1 at the exit row; a vertical player and an up exit
  with the same column and the anchor row at the exit row. For every other combination of
  orientation and direction it returns false at every position.
\<close>

theorem checkWin_cases:
  assumes "vehiclePositions s (v_id (playerCar (puzzle s))) = Some pos"
  shows "checkWin s = Inr
     (let pc = playerCar (puzzle s); ex = exit (puzzle s) in
        (v_orientation pc = horizontal \<and> direction ex = right
           \<and> row pos = row ex \<and> col pos + v_length pc - 1 = col ex)
      \<or> (v_orientation pc = horizontal \<and> direction ex = left
           \<and> row pos = row ex \<and> col pos = col ex)
      \<or> (v_orientation pc = vertical \<and> direction ex = down
           \<and> col pos = col ex \<and> row pos + v_length pc - 1 = row ex)
      \<or> (v_orientation pc = vertical \<and> direction ex = up
           \<and> col pos = col ex \<and> row pos = row ex))"
  using assms
  by (cases "v_orientation (playerCar (puzzle s))"; cases "direction (exit (puzzle s))")
     (simp_all add: checkWin_def Let_def)

theorem checkWin_cases_witness:
  "vehiclePositions (state (engineAfter scenario3x3 [MoveVehicle ''player'' \<lparr>row = 1, col = 1\<rparr>]))
     (v_id (playerCar (puzzle (state (engineAfter scenario3x3
        [MoveVehicle ''player'' \<lparr>row = 1, col = 1\<rparr>]))))) = Some \<lparr>row = 1, col = 1\<rparr>
   \<and> checkWin (state (engineAfter scenario3x3 [MoveVehicle ''player'' \<lparr>row = 1, col = 1\<rparr>]))
       = Inr True
   \<and> vehiclePositions (initState (scenario3x3\<lparr>exit := \<lparr>row = 0, col = 0, direction = up\<rparr>\<rparr>))
        (v_id (playerCar (puzzle (initState
           (scenario3x3\<lparr>exit := \<lparr>row = 0, col = 0, direction = up\<rparr>\<rparr>)))))
       = Some \<lparr>row = 1, col = 0\<rparr>
   \<and> checkWin (initState (scenario3x3\<lparr>exit := \<lparr>row = 0, col = 0, direction = up\<rparr>\<rparr>))
       = Inr False"
proof -
  let ?s = "state (engineAfter scenario3x3 [MoveVehicle ''player'' \<lparr>row = 1, col = 1\<rparr>])"
  let ?t = "initState (scenario3x3\<lparr>exit := \<lparr>row = 0, col = 0, direction = up\<rparr>\<rparr>)"
  have h: "vehiclePositions ?s (v_id (playerCar (puzzle ?s))) = Some \<lparr>row = 1, col = 1\<rparr>"
    by code_simp
  have k: "vehiclePositions ?t (v_id (playerCar (puzzle ?t))) = Some \<lparr>row = 1, col = 0\<rparr>"
    by code_simp
  have s: "v_orientation (playerCar (puzzle ?s)) = horizontal" "direction (exit (puzzle ?s)) = right"
    "row (exit (puzzle ?s)) = 1" "col (exit (puzzle ?s)) = 2" "v_length (playerCar (puzzle ?s)) = 2"
    by code_simp+
  have t: "v_orientation (playerCar (puzzle ?t)) = horizontal" "direction (exit (puzzle ?t)) = up"
    by code_simp+
  have "checkWin ?s = Inr True"
    using checkWin_cases [OF h] by (simp add: s Let_def)
  moreover have "checkWin ?t = Inr False"
    using checkWin_cases [OF k] by (simp add: t Let_def)
  ultimately show ?thesis using h k by simp
qed

text \<open>
  C6. \<open>moveVehicle\<close> returns false in exactly two situations, \<open>canMove\<close> returning
  false, or \<open>canMove\<close> returning true with a target equal to the current position; and
  the engine it leaves is the engine it was given: the positions, the move counter, the
  completion flag, the move history and the log of notifications are all unchanged.
\<close>

theorem moveVehicle_false_unchanged:
  "moveVehicle e ident newPos = Inr (False, e') \<longleftrightarrow>
     e' = e \<and> (canMove e ident newPos = Inr False
               \<or> (canMove e ident newPos = Inr True \<and> noOpTarget e ident newPos))"
  by (auto simp: moveVehicle_def noOpTarget_def Let_def split: sum.splits option.splits)

theorem moveVehicle_false_unchanged_witness:
  "moveVehicle (newGameEngine scenario4x4) ''player'' \<lparr>row = 1, col = 2\<rparr>
     = Inr (False, newGameEngine scenario4x4)
   \<and> moveVehicle (newGameEngine scenario4x4) ''player'' \<lparr>row = 1, col = 0\<rparr>
     = Inr (False, newGameEngine scenario4x4)"
proof -
  have blocked: "canMove (newGameEngine scenario4x4) ''player'' \<lparr>row = 1, col = 2\<rparr> = Inr False"
    by code_simp
  have same: "canMove (newGameEngine scenario4x4) ''player'' \<lparr>row = 1, col = 0\<rparr> = Inr True"
    by code_simp
  have noop: "noOpTarget (newGameEngine scenario4x4) ''player'' \<lparr>row = 1, col = 0\<rparr>"
    by code_simp
  from blocked same noop
    moveVehicle_false_unchanged
      [of "newGameEngine scenario4x4" "''player''" "\<lparr>row = 1, col = 2\<rparr>" "newGameEngine scenario4x4"]
    moveVehicle_false_unchanged
      [of "newGameEngine scenario4x4" "''player''" "\<lparr>row = 1, col = 0\<rparr>" "newGameEngine scenario4x4"]
  show ?thesis by simp
qed

text \<open>
  C10. From an engine whose completion flag is true, every sequence of \<open>moveVehicle\<close>
  calls leaves the flag true, whether the moves are applied or refused and wherever they
  take the player; \<open>reset\<close> sets it to false.
\<close>

theorem isComplete_sticky:
  assumes "isComplete (state e)" and "Reset \<notin> set calls" and "runCalls e calls = Inr e'"
  shows "isComplete (state e') \<and> \<not> isComplete (state (reset e'))"
proof -
  from assms have "isComplete (state e')"
  proof (induction calls arbitrary: e)
    case Nil
    then show ?case by simp
  next
    case (Cons c calls)
    from Cons.prems(2) obtain ident newPos where c: "c = MoveVehicle ident newPos"
      by (cases c) auto
    with Cons.prems(3) obtain applied e1 where
      m: "moveVehicle e ident newPos = Inr (applied, e1)" and r: "runCalls e1 calls = Inr e'"
      by (auto split: sum.splits)
    from moveVehicle_keeps_complete [OF m Cons.prems(1)] Cons.IH [of e1] Cons.prems(2) r
    show ?case by simp
  qed
  then show ?thesis by (simp add: reset_def notify_def initState_def)
qed

theorem isComplete_sticky_witness:
  "isComplete (state (engineAfter scenario3x3 [MoveVehicle ''player'' \<lparr>row = 1, col = 1\<rparr>]))
   \<and> Reset \<notin> set [MoveVehicle ''player'' \<lparr>row = 1, col = 0\<rparr>]
   \<and> runCalls (engineAfter scenario3x3 [MoveVehicle ''player'' \<lparr>row = 1, col = 1\<rparr>])
        [MoveVehicle ''player'' \<lparr>row = 1, col = 0\<rparr>]
      = Inr (engineAfter scenario3x3 [MoveVehicle ''player'' \<lparr>row = 1, col = 1\<rparr>,
                                      MoveVehicle ''player'' \<lparr>row = 1, col = 0\<rparr>])
   \<and> checkWin (state (engineAfter scenario3x3 [MoveVehicle ''player'' \<lparr>row = 1, col = 1\<rparr>,
                                      MoveVehicle ''player'' \<lparr>row = 1, col = 0\<rparr>])) = Inr False
   \<and> isComplete (state (engineAfter scenario3x3 [MoveVehicle ''player'' \<lparr>row = 1, col = 1\<rparr>,
                                      MoveVehicle ''player'' \<lparr>row = 1, col = 0\<rparr>]))
   \<and> \<not> isComplete (state (reset (engineAfter scenario3x3 [MoveVehicle ''player'' \<lparr>row = 1, col = 1\<rparr>,
                                      MoveVehicle ''player'' \<lparr>row = 1, col = 0\<rparr>])))"
proof -
  let ?m1 = "MoveVehicle ''player'' \<lparr>row = 1, col = 1\<rparr>"
  let ?m2 = "MoveVehicle ''player'' \<lparr>row = 1, col = 0\<rparr>"
  have h1: "isComplete (state (engineAfter scenario3x3 [?m1]))" by code_simp
  have h2: "Reset \<notin> set [?m2]" by simp
  have t: "\<not> isl (runCalls (newGameEngine scenario3x3) [?m1, ?m2])" by code_simp
  have h3: "runCalls (engineAfter scenario3x3 [?m1]) [?m2] = Inr (engineAfter scenario3x3 [?m1, ?m2])"
    using t runCalls_append [of "newGameEngine scenario3x3" "[?m1]" "[?m2]"]
    by (cases "runCalls (newGameEngine scenario3x3) [?m1]")
       (simp_all add: engineAfter_def split: sum.splits)
  have h4: "checkWin (state (engineAfter scenario3x3 [?m1, ?m2])) = Inr False" by code_simp
  from isComplete_sticky [OF h1 h2 h3] h1 h2 h3 h4 show ?thesis by blast
qed

text \<open>
  C5. In a state satisfying the placement invariants, for every existing vehicle,
  \<open>getSlideRange\<close> returns a range \<open>{min, max}\<close> around the vehicle's current
  coordinate along its axis; \<open>canMove\<close> returns true for the anchor at every coordinate
  from \<open>min\<close> to \<open>max\<close>; and \<open>min\<close> and \<open>max\<close> both equal the current coordinate
  when \<open>canMove\<close> accepts neither the anchor one cell back nor the anchor one cell
  forward.
\<close>

theorem getSlideRange_reachable:
  assumes ok: "stateOK (state e)" and gv: "getVehicle e ident = Some vehicle"
  shows "\<exists>r pos. getSlideRange e ident = Inr r \<and> vehiclePositions (state e) ident = Some pos \<and>
     (let isHorizontal = (v_orientation vehicle = horizontal);
          cur = (if isHorizontal then col pos else row pos)
      in range_min r \<le> cur \<and> cur \<le> range_max r
         \<and> (\<forall>k. range_min r \<le> k \<and> k \<le> range_max r \<longrightarrow>
                canMove e ident (testPos isHorizontal pos k) = Inr True)
         \<and> (canMove e ident (testPos isHorizontal pos (cur - 1)) \<noteq> Inr True
            \<and> canMove e ident (testPos isHorizontal pos (cur + 1)) \<noteq> Inr True
            \<longrightarrow> range_min r = cur \<and> range_max r = cur))"
proof -
  from ok have pd: "positionsDefined (state e)" by (simp add: stateOK_def)
  from getVehicle_SomeD [OF gv] pd obtain pos where
    pos: "vehiclePositions (state e) ident = Some pos"
    by (auto simp: positionsDefined_def)
  define isH where "isH = (v_orientation vehicle = horizontal)"
  define cur where "cur = (if isH then col pos else row pos)"
  define limit where "limit = (if isH then cols (gridSize (puzzle (state e)))
                               else rows (gridSize (puzzle (state e))))"
  have here: "testPos isH pos cur = pos" by (simp add: testPos_def cur_def)
  from stay_legal [OF ok gv pos] have stay: "legalTarget e ident (testPos isH pos cur)"
    by (simp add: here)
  from slideBackward_spec [OF pd, of ident isH pos cur] obtain mn where
    mn: "slideBackward e ident isH pos cur = Inr mn" "mn \<le> cur"
        "\<forall>k. mn \<le> k \<and> k < cur \<longrightarrow> legalTarget e ident (testPos isH pos k)"
        "\<not> legalTarget e ident (testPos isH pos (cur - 1)) \<longrightarrow> mn = cur" by blast
  from slideForward_spec [OF pd, of ident isH pos "v_length vehicle" limit cur] obtain mx where
    mx: "slideForward e ident isH pos (v_length vehicle) limit cur = Inr mx" "cur \<le> mx"
        "\<forall>k. cur < k \<and> k \<le> mx \<longrightarrow> legalTarget e ident (testPos isH pos k)"
        "\<not> legalTarget e ident (testPos isH pos (cur + 1)) \<longrightarrow> mx = cur" by blast
  have r: "getSlideRange e ident = Inr \<lparr>range_min = mn, range_max = mx\<rparr>"
    using mn(1) mx(1)
    by (simp add: getSlideRange_def gv pos Let_def isH_def [symmetric] cur_def [symmetric]
        limit_def [symmetric])
  have all: "legalTarget e ident (testPos isH pos k)" if "mn \<le> k" "k \<le> mx" for k
  proof -
    consider "k < cur" | "k = cur" | "cur < k" by linarith
    then show ?thesis using that mn(3) mx(3) stay by cases auto
  qed
  have cm: "canMove e ident p = Inr (legalTarget e ident p)" for p
    by (rule canMove_legalTarget [OF pd])
  show ?thesis
    using r pos mn(2,4) mx(2,4) all
    by (simp add: Let_def isH_def [symmetric] cur_def [symmetric] cm)
qed

theorem getSlideRange_reachable_witness:
  "stateOK (state (newGameEngine scenario4x4))
   \<and> getVehicle (newGameEngine scenario4x4) ''vehicle-0'' = Some (hd (vehicles scenario4x4))
   \<and> getSlideRange (newGameEngine scenario4x4) ''vehicle-0'' = Inr \<lparr>range_min = 0, range_max = 2\<rparr>
   \<and> canMove (newGameEngine scenario4x4) ''vehicle-0'' \<lparr>row = 1, col = 2\<rparr> = Inr True
   \<and> canMove (newGameEngine scenario4x4) ''vehicle-0'' \<lparr>row = 2, col = 2\<rparr> = Inr True
   \<and> getVehicle (newGameEngine scenario4x4) ''player'' = Some (playerCar scenario4x4)
   \<and> canMove (newGameEngine scenario4x4) ''player'' \<lparr>row = 1, col = - 1\<rparr> \<noteq> Inr True
   \<and> canMove (newGameEngine scenario4x4) ''player'' \<lparr>row = 1, col = 1\<rparr> \<noteq> Inr True
   \<and> getSlideRange (newGameEngine scenario4x4) ''player'' = Inr \<lparr>range_min = 0, range_max = 0\<rparr>"
proof -
  let ?e = "newGameEngine scenario4x4"
  have a: "stateOK (state ?e)" by code_simp
  have b: "getVehicle ?e ''vehicle-0'' = Some (hd (vehicles scenario4x4))" by code_simp
  have g: "getSlideRange ?e ''vehicle-0'' = Inr \<lparr>range_min = 0, range_max = 2\<rparr>" by code_simp
  have p: "vehiclePositions (state ?e) ''vehicle-0'' = Some \<lparr>row = 0, col = 2\<rparr>" by code_simp
  have o: "v_orientation (hd (vehicles scenario4x4)) = vertical" by code_simp
  from getSlideRange_reachable [OF a b] g p o
  have all: "\<forall>k. 0 \<le> k \<and> k \<le> 2 \<longrightarrow>
               canMove ?e ''vehicle-0'' (testPos False \<lparr>row = 0, col = 2\<rparr> k) = Inr True"
    by (auto simp: Let_def)
  have c: "getVehicle ?e ''player'' = Some (playerCar scenario4x4)" by code_simp
  have q: "vehiclePositions (state ?e) ''player'' = Some \<lparr>row = 1, col = 0\<rparr>" by code_simp
  have h: "v_orientation (playerCar scenario4x4) = horizontal" by code_simp
  have bwd: "canMove ?e ''player'' \<lparr>row = 1, col = - 1\<rparr> \<noteq> Inr True" by code_simp
  have fwd: "canMove ?e ''player'' \<lparr>row = 1, col = 1\<rparr> \<noteq> Inr True" by code_simp
  from getSlideRange_reachable [OF a c] q h bwd fwd
  have boxed: "getSlideRange ?e ''player'' = Inr \<lparr>range_min = 0, range_max = 0\<rparr>"
    by (auto simp: Let_def testPos_def)
  from all [rule_format, of 1] all [rule_format, of 2] a b g c bwd fwd boxed show ?thesis
    by (simp add: testPos_def)
qed

text \<open>
  C9 as stated does not hold: on a fresh engine of the 3 by 3 scenario the player exists,
  stands at (1, 0), and \<open>canMove\<close> to (1, 0) does not return false.
\<close>

theorem canMove_noop_counterexample:
  "getVehicle (newGameEngine scenario3x3) ''player'' = Some (playerCar scenario3x3)
   \<and> vehiclePositions (state (newGameEngine scenario3x3)) ''player'' = Some \<lparr>row = 1, col = 0\<rparr>
   \<and> canMove (newGameEngine scenario3x3) ''player'' \<lparr>row = 1, col = 0\<rparr> \<noteq> Inr False"
  by code_simp

text \<open>
  C9, as the code has it. In a state satisfying the placement invariants, for every
  existing vehicle, \<open>canMove\<close> returns true when the target is the vehicle's current
  position; it is \<open>moveVehicle\<close> that refuses this target, returning false and leaving
  the engine unchanged.
\<close>

theorem canMove_current_position:
  assumes "stateOK (state e)" and "getVehicle e ident = Some vehicle"
    and "vehiclePositions (state e) ident = Some cur"
  shows "canMove e ident cur = Inr True \<and> moveVehicle e ident cur = Inr (False, e)"
proof -
  from assms(1) have pd: "positionsDefined (state e)" by (simp add: stateOK_def)
  from stay_legal [OF assms] canMove_legalTarget [OF pd, of ident cur]
  have "canMove e ident cur = Inr True" by simp
  moreover from assms(3) have "noOpTarget e ident cur" by (simp add: noOpTarget_def)
  from moveVehicle_rejected [OF pd, of ident cur] this
  have "moveVehicle e ident cur = Inr (False, e)" by simp
  ultimately show ?thesis ..
qed

theorem canMove_current_position_witness:
  "stateOK (state (newGameEngine scenario4x4))
   \<and> getVehicle (newGameEngine scenario4x4) ''vehicle-0'' = Some (hd (vehicles scenario4x4))
   \<and> vehiclePositions (state (newGameEngine scenario4x4)) ''vehicle-0'' = Some \<lparr>row = 0, col = 2\<rparr>
   \<and> canMove (newGameEngine scenario4x4) ''vehicle-0'' \<lparr>row = 0, col = 2\<rparr> = Inr True
   \<and> moveVehicle (newGameEngine scenario4x4) ''vehicle-0'' \<lparr>row = 0, col = 2\<rparr>
       = Inr (False, newGameEngine scenario4x4)"
proof -
  have a: "stateOK (state (newGameEngine scenario4x4))" by code_simp
  have b: "getVehicle (newGameEngine scenario4x4) ''vehicle-0'' = Some (hd (vehicles scenario4x4))"
    by code_simp
  have c: "vehiclePositions (state (newGameEngine scenario4x4)) ''vehicle-0'' = Some \<lparr>row = 0, col = 2\<rparr>"
    by code_simp
  from canMove_current_position [OF a b c] a b c show ?thesis by simp
qed

text \<open>
  C3. \<open>validatePuzzle\<close> never raises and returns exactly one of four results. With an
  absent or empty trace: not valid, "No validation provided". When step \<open>k\<close> (from 0) is
  the first whose move \<open>moveVehicle\<close> refuses: not valid, "Invalid move at step" followed
  by \<open>k + 1\<close>, and the replay stops there, its engine having applied the \<open>k\<close> moves
  before and nothing after. When every move is accepted: valid with par the length of the
  trace if the final completion flag is true, and otherwise not valid, "Validation does
  not reach win state". The replay works on its own engine and leaves the template inside
  it as it was, and the result is a function of the template alone, so repeated calls
  agree.
\<close>

theorem validatePuzzle_outcomes:
  "(validation p = None \<or> validation p = Some [] \<longrightarrow>
      validatePuzzle p = Inr (invalidResult ''No validation provided''))
   \<and> (\<forall>ms k. validation p = Some ms \<and> k < length ms
          \<and> (\<forall>j < k. \<not> stepFails p ms j) \<and> stepFails p ms k \<longrightarrow>
        validatePuzzle p = Inr (invalidResult (''Invalid move at step '' @ showNat (k + 1)))
        \<and> replay (newGameEngine p) ms 0
            = Inr (Some (k + 1), afterMoves (newGameEngine p) (take k ms))
        \<and> moveHistory (afterMoves (newGameEngine p) (take k ms)) = take k ms)
   \<and> (\<forall>ms. validation p = Some ms \<and> ms \<noteq> [] \<and> (\<forall>j < length ms. \<not> stepFails p ms j) \<longrightarrow>
        validatePuzzle p =
          Inr (if isComplete (state (afterMoves (newGameEngine p) ms))
               then \<lparr>isValid = True, par = Some (length ms), error = None\<rparr>
               else invalidResult ''Validation does not reach win state''))
   \<and> (\<forall>ms. puzzle (state (afterMoves (newGameEngine p) ms)) = p)"
proof (intro conjI allI impI)
  fix ms
  show "puzzle (state (afterMoves (newGameEngine p) ms)) = p"
    by (simp add: afterMoves_puzzle newGameEngine_def)
next
  assume "validation p = None \<or> validation p = Some []"
  then show "validatePuzzle p = Inr (invalidResult ''No validation provided'')"
    by (auto simp: validatePuzzle_def invalidResult_def)
next
  have pd: "positionsDefined (state (newGameEngine p))"
    by (simp add: newGameEngine_def initState_positionsDefined)
  fix ms k
  assume a: "validation p = Some ms \<and> k < length ms
          \<and> (\<forall>j < k. \<not> stepFails p ms j) \<and> stepFails p ms k"
  then have r: "replay (newGameEngine p) ms 0
            = Inr (Some (k + 1), afterMoves (newGameEngine p) (take k ms))"
    using replay_first_failure [OF pd, of k ms 0] by (simp add: stepFails_def)
  then show "replay (newGameEngine p) ms 0
            = Inr (Some (k + 1), afterMoves (newGameEngine p) (take k ms))" .
  from a have acc: "\<forall>j < length (take k ms).
      moveAccepted (afterMoves (newGameEngine p) (take j (take k ms))) (take k ms ! j)"
    by (simp add: stepFails_def min_def)
  from afterMoves_history [OF pd acc]
  show "moveHistory (afterMoves (newGameEngine p) (take k ms)) = take k ms"
    by (simp add: newGameEngine_def)
  from a have "ms \<noteq> []" by auto
  with a r show "validatePuzzle p = Inr (invalidResult (''Invalid move at step '' @ showNat (k + 1)))"
    by (simp add: validatePuzzle_def invalidResult_def)
next
  have pd: "positionsDefined (state (newGameEngine p))"
    by (simp add: newGameEngine_def initState_positionsDefined)
  fix ms
  assume a: "validation p = Some ms \<and> ms \<noteq> [] \<and> (\<forall>j < length ms. \<not> stepFails p ms j)"
  then have "replay (newGameEngine p) ms 0 = Inr (None, afterMoves (newGameEngine p) ms)"
    using replay_all_accepted [OF pd, of ms 0] by (simp add: stepFails_def)
  with a show "validatePuzzle p =
          Inr (if isComplete (state (afterMoves (newGameEngine p) ms))
               then \<lparr>isValid = True, par = Some (length ms), error = None\<rparr>
               else invalidResult ''Validation does not reach win state'')"
    by (simp add: validatePuzzle_def invalidResult_def)
qed

theorem validatePuzzle_outcomes_witness:
  "validatePuzzle (scenario3x3\<lparr>validation := None\<rparr>)
     = Inr \<lparr>isValid = False, par = None, error = Some ''No validation provided''\<rparr>
   \<and> validatePuzzle outOfBoundsTrace
     = Inr \<lparr>isValid = False, par = None, error = Some ''Invalid move at step 2''\<rparr>
   \<and> validatePuzzle noWinTrace
     = Inr \<lparr>isValid = False, par = None, error = Some ''Validation does not reach win state''\<rparr>
   \<and> validatePuzzle scenario4x4 = Inr \<lparr>isValid = True, par = Some 2, error = None\<rparr>"
proof -
  let ?ms = "[\<lparr>vehicleId = ''player'', m_row = 1, m_col = 1\<rparr>,
              \<lparr>vehicleId = ''player'', m_row = 1, m_col = 3\<rparr>,
              \<lparr>vehicleId = ''player'', m_row = 1, m_col = 0\<rparr>]"
  let ?ns = "[\<lparr>vehicleId = ''vehicle-0'', m_row = 2, m_col = 2\<rparr>]"
  let ?ws = "[\<lparr>vehicleId = ''vehicle-0'', m_row = 2, m_col = 2\<rparr>,
              \<lparr>vehicleId = ''player'', m_row = 1, m_col = 2\<rparr>]"
  have a: "validation (scenario3x3\<lparr>validation := None\<rparr>) = None" by simp
  have b: "validation outOfBoundsTrace = Some ?ms" by (simp add: outOfBoundsTrace_def)
  have b0: "\<not> stepFails outOfBoundsTrace ?ms 0" by code_simp
  have b1: "stepFails outOfBoundsTrace ?ms 1" by code_simp
  have c: "validation noWinTrace = Some ?ns" by (simp add: noWinTrace_def)
  have c0: "\<not> stepFails noWinTrace ?ns 0" by code_simp
  have c1: "\<not> isComplete (state (afterMoves (newGameEngine noWinTrace) ?ns))" by code_simp
  have d: "validation scenario4x4 = Some ?ws" by (simp add: scenario4x4_def)
  have d0: "\<not> stepFails scenario4x4 ?ws 0" "\<not> stepFails scenario4x4 ?ws 1" by code_simp+
  have d1: "isComplete (state (afterMoves (newGameEngine scenario4x4) ?ws))" by code_simp
  have two: "showNat (Suc (Suc 0)) = ''2''" by code_simp
  have "validatePuzzle (scenario3x3\<lparr>validation := None\<rparr>)
          = Inr (invalidResult ''No validation provided'')"
    using validatePuzzle_outcomes [of "scenario3x3\<lparr>validation := None\<rparr>"] a by blast
  moreover have "validatePuzzle outOfBoundsTrace
          = Inr (invalidResult (''Invalid move at step '' @ showNat (1 + 1)))"
    using validatePuzzle_outcomes [of outOfBoundsTrace, THEN conjunct2, THEN conjunct1,
        rule_format, of ?ms 1] b b0 b1 by simp
  moreover have "validatePuzzle noWinTrace = Inr (invalidResult ''Validation does not reach win state'')"
    using validatePuzzle_outcomes [of noWinTrace, THEN conjunct2, THEN conjunct2,
        THEN conjunct1, rule_format, of ?ns] c c0 c1 by simp
  moreover have "validatePuzzle scenario4x4 = Inr \<lparr>isValid = True, par = Some 2, error = None\<rparr>"
    using validatePuzzle_outcomes [of scenario4x4, THEN conjunct2, THEN conjunct2,
        THEN conjunct1, rule_format, of ?ws] d d0 d1 by (simp add: less_Suc_eq numeral_2_eq_2)
  ultimately show ?thesis by (simp add: invalidResult_def two)
qed


section \<open>The claims about rotation and hydration\<close>

text \<open>
  C2. For every puzzle template, four applications of \<open>rotatePuzzle90CW\<close> give back
  the template: the name and difficulty, the grid size, the exit cell, the player, every
  vehicle with its anchor, orientation, length, colour and type, every obstacle, and the
  validation trace move for move.
\<close>

theorem rotatePuzzle90CW_four_times:
  "rotatePuzzle90CW (rotatePuzzle90CW (rotatePuzzle90CW (rotatePuzzle90CW raw))) = raw"
proof (rule RawPuzzle.equality)
  let ?r4 = "rotatePuzzle90CW (rotatePuzzle90CW (rotatePuzzle90CW (rotatePuzzle90CW raw)))"
  show "r_name ?r4 = r_name raw" "r_difficulty ?r4 = r_difficulty raw" by simp_all
  show "r_gridSize ?r4 = r_gridSize raw" by simp
  show "r_exit ?r4 = r_exit raw" by (simp add: rotatePos_def)
  show "r_playerCar ?r4 = r_playerCar raw" by (simp add: rotateVehicle_four)
  show "r_vehicles ?r4 = r_vehicles raw"
    by (simp add: rotateRawVehicle_four comp_def)
  show "r_obstacles ?r4 = r_obstacles raw"
    by (simp add: rotateObstacle_four comp_def)
  show "r_validation ?r4 = r_validation raw"
    by (cases "r_validation raw") (simp_all add: comp_def rotateMove_four)
  show "RawPuzzle.more ?r4 = RawPuzzle.more raw" by simp
qed

theorem rotatePuzzle90CW_four_times_witness:
  "rotatePuzzle90CW (rotatePuzzle90CW (rotatePuzzle90CW (rotatePuzzle90CW raw4x4))) = raw4x4
   \<and> rotatePuzzle90CW raw4x4 \<noteq> raw4x4
   \<and> rotatePuzzle90CW (rotatePuzzle90CW raw4x4) \<noteq> raw4x4"
proof -
  have "rotatePuzzle90CW raw4x4 \<noteq> raw4x4" "rotatePuzzle90CW (rotatePuzzle90CW raw4x4) \<noteq> raw4x4"
    by code_simp+
  with rotatePuzzle90CW_four_times [of raw4x4] show ?thesis by simp
qed

text \<open>
  C7. \<open>rotatePuzzle90CW\<close> rotates the player and every vehicle of the template: with
  \<open>R\<close> the original row count, the cells of the rotated vehicle are exactly the images
  of the original cells under \<open>(r, c) \<mapsto> (c, R - 1 - r)\<close>, the length is kept, a
  horizontal vehicle becomes vertical with the image of its anchor as new anchor, and a
  vertical vehicle becomes horizontal with the image of its bottom cell
  \<open>(r + length - 1, c)\<close> as new anchor. The validation trace keeps its length and its
  identities, and every waypoint that names the player or a vehicle of the template is
  moved by the same anchor rule, with that entity's original orientation and length.
\<close>

theorem rotatePuzzle90CW_cells:
  "rotatedBody (rows (r_gridSize raw)) (r_playerCar raw) (r_playerCar (rotatePuzzle90CW raw))
   \<and> length (r_vehicles (rotatePuzzle90CW raw)) = length (r_vehicles raw)
   \<and> (\<forall>i < length (r_vehicles raw).
         rotatedBody (rows (r_gridSize raw)) (bodyOf (r_vehicles raw ! i))
           (bodyOf (r_vehicles (rotatePuzzle90CW raw) ! i)))
   \<and> (\<forall>ms. r_validation raw = Some ms \<longrightarrow>
         (\<exists>ms'. r_validation (rotatePuzzle90CW raw) = Some ms' \<and> length ms' = length ms
            \<and> (\<forall>j < length ms. \<forall>b. entityOf raw (vehicleId (ms ! j)) = Some b \<longrightarrow>
                  vehicleId (ms' ! j) = vehicleId (ms ! j)
                  \<and> (m_row (ms' ! j), m_col (ms' ! j))
                      = rotatedAnchor (rows (r_gridSize raw)) (b_orientation b) (b_length b)
                          (m_row (ms ! j), m_col (ms ! j)))))"
proof (intro conjI allI impI)
  show "rotatedBody (rows (r_gridSize raw)) (r_playerCar raw) (r_playerCar (rotatePuzzle90CW raw))"
    by (simp add: rotateVehicle_rotatedBody)
  show "length (r_vehicles (rotatePuzzle90CW raw)) = length (r_vehicles raw)" by simp
next
  fix i assume "i < length (r_vehicles raw)"
  then show "rotatedBody (rows (r_gridSize raw)) (bodyOf (r_vehicles raw ! i))
           (bodyOf (r_vehicles (rotatePuzzle90CW raw) ! i))"
    by (simp add: bodyOf_rotateRawVehicle rotateVehicle_rotatedBody)
next
  fix ms assume ms: "r_validation raw = Some ms"
  have "\<forall>j < length ms. \<forall>b. entityOf raw (vehicleId (ms ! j)) = Some b \<longrightarrow>
          vehicleId (map (rotateMove raw) ms ! j) = vehicleId (ms ! j)
          \<and> (m_row (map (rotateMove raw) ms ! j), m_col (map (rotateMove raw) ms ! j))
              = rotatedAnchor (rows (r_gridSize raw)) (b_orientation b) (b_length b)
                  (m_row (ms ! j), m_col (ms ! j))"
  proof (intro allI impI)
    fix j b assume j: "j < length ms" and b: "entityOf raw (vehicleId (ms ! j)) = Some b"
    from entityOf_lookup [OF b] j
    show "vehicleId (map (rotateMove raw) ms ! j) = vehicleId (ms ! j)
          \<and> (m_row (map (rotateMove raw) ms ! j), m_col (map (rotateMove raw) ms ! j))
              = rotatedAnchor (rows (r_gridSize raw)) (b_orientation b) (b_length b)
                  (m_row (ms ! j), m_col (ms ! j))"
      by (simp add: rotateMove_def Let_def rotateVehicle_def rotatePos_def rotatedAnchor_def
          cellMap_def)
  qed
  with ms show "\<exists>ms'. r_validation (rotatePuzzle90CW raw) = Some ms' \<and> length ms' = length ms
            \<and> (\<forall>j < length ms. \<forall>b. entityOf raw (vehicleId (ms ! j)) = Some b \<longrightarrow>
                  vehicleId (ms' ! j) = vehicleId (ms ! j)
                  \<and> (m_row (ms' ! j), m_col (ms' ! j))
                      = rotatedAnchor (rows (r_gridSize raw)) (b_orientation b) (b_length b)
                          (m_row (ms ! j), m_col (ms ! j)))"
    by (intro exI [of _ "map (rotateMove raw) ms"]) simp
qed

theorem rotatePuzzle90CW_cells_witness:
  "(0::nat) < length (r_vehicles raw4x4)
   \<and> rotatedBody 4 (bodyOf (r_vehicles raw4x4 ! 0)) (bodyOf (r_vehicles (rotatePuzzle90CW raw4x4) ! 0))
   \<and> set (bodyCells (bodyOf (r_vehicles (rotatePuzzle90CW raw4x4) ! 0))) = {(2, 2), (2, 3)}
   \<and> r_validation raw4x4 = Some [\<lparr>vehicleId = ''vehicle-0'', m_row = 2, m_col = 2\<rparr>,
                                  \<lparr>vehicleId = ''player'', m_row = 1, m_col = 2\<rparr>]
   \<and> entityOf raw4x4 ''vehicle-0'' = Some (bodyOf (r_vehicles raw4x4 ! 0))
   \<and> map_option (\<lambda>ms'. (vehicleId (ms' ! 0), m_row (ms' ! 0), m_col (ms' ! 0)))
        (r_validation (rotatePuzzle90CW raw4x4)) = Some (''vehicle-0'', 2, 0)"
proof -
  let ?ms = "[\<lparr>vehicleId = ''vehicle-0'', m_row = 2, m_col = 2\<rparr>,
              \<lparr>vehicleId = ''player'', m_row = 1, m_col = 2\<rparr>]"
  let ?b = "bodyOf (r_vehicles raw4x4 ! 0)"
  have n: "(0::nat) < length (r_vehicles raw4x4)" by code_simp
  have R: "rows (r_gridSize raw4x4) = 4" by code_simp
  have v: "r_validation raw4x4 = Some ?ms" by code_simp
  have en: "entityOf raw4x4 (vehicleId (?ms ! 0)) = Some ?b" by code_simp
  have b: "b_orientation ?b = vertical" "b_length ?b = 2" by code_simp+
  have cells: "cellMap 4 ` set (bodyCells ?b) = {(2, 2), (2, 3)}" by code_simp
  note inst = rotatePuzzle90CW_cells [of raw4x4, unfolded R]
  from inst n have rb: "rotatedBody 4 ?b (bodyOf (r_vehicles (rotatePuzzle90CW raw4x4) ! 0))"
    by blast
  from inst v obtain ms' where
    ms': "r_validation (rotatePuzzle90CW raw4x4) = Some ms'"
    and w: "\<forall>j < length ?ms. \<forall>b. entityOf raw4x4 (vehicleId (?ms ! j)) = Some b \<longrightarrow>
              vehicleId (ms' ! j) = vehicleId (?ms ! j)
              \<and> (m_row (ms' ! j), m_col (ms' ! j))
                  = rotatedAnchor 4 (b_orientation b) (b_length b) (m_row (?ms ! j), m_col (?ms ! j))"
    by blast
  from w [rule_format, of 0 ?b] en b
  have "vehicleId (ms' ! 0) = ''vehicle-0'' \<and> m_row (ms' ! 0) = 2 \<and> m_col (ms' ! 0) = 0"
    by (simp add: rotatedAnchor_def cellMap_def)
  with n rb cells v en ms' show ?thesis by (simp add: rotatedBody_def)
qed

text \<open>
  C8, at the input where the code departs from it. The raw 4 by 4 scenario with its exit
  at row 1, column 9 has an exit that is not on the grid periphery (it is not a cell of
  the grid), yet hydration does not abort: it returns a puzzle with that exit and the
  direction right.
\<close>

theorem hydratePuzzle_offgrid_exit:
  "\<not> onPeriphery (r_gridSize offGridExit) (r_exit offGridExit)
   \<and> (case hydratePuzzle offGridExit ''custom'' of
        Inl x \<Rightarrow> False
      | Inr p \<Rightarrow> direction (exit p) = right \<and> row (exit p) = 1 \<and> col (exit p) = 9
                 \<and> gridSize p = \<lparr>rows = 4, cols = 4\<rparr>)"
  by code_simp

end
